theory Spec2Isabelle
  imports Complex_Main "HOL-Library.Log_Nat"
begin

section \<open>Data model (schema/supabase-schema.sql)\<close>

text \<open>
  Monetary amounts are exact rationals. A \<open>DECIMAL(p,s)\<close> column stores a value rounded
  to \<open>s\<close> decimal places (PostgreSQL rounds ties away from zero) and rejects a rounded
  value with more than \<open>p - s\<close> digits before the point. Token counts and durations are
  integers: a fractional number is no input of the model.

  User ids are strings (the UUID text), row ids are naturals standing for the values of
  \<open>gen_random_uuid()\<close>: each insert takes the next unused one. \<open>NOW()\<close> is a counter
  in the database state that advances with every statement that changes a table, so
  \<open>created_at\<close> orders rows by the time of their insertion. \<open>CURRENT_DATE\<close> is
  passed in as \<open>today\<close>, a (year, month, day) triple.
\<close>

type_synonym date = "nat \<times> nat \<times> nat"

definition date_less :: "date \<Rightarrow> date \<Rightarrow> bool" where
  "date_less a b =
     (case a of (y1, m1, d1) \<Rightarrow> case b of (y2, m2, d2) \<Rightarrow>
        y1 < y2 \<or> (y1 = y2 \<and> (m1 < m2 \<or> (m1 = m2 \<and> d1 < d2))))"

definition date_trunc_month :: "date \<Rightarrow> date" where
  "date_trunc_month d = (case d of (y, m, _) \<Rightarrow> (y, m, 1))"

datatype key_status = active | inactive | suspended | expired

datatype error =
    PGRST116
  | CheckViolation string
  | ForeignKeyViolation string
  | NotNullViolation string
  | NumericValueOutOfRange
  | InvalidNumeric
  | HttpError string
  | NoActiveKey string

definition round_half_away :: "rat \<Rightarrow> int" where
  "round_half_away x = (if 0 \<le> x then \<lfloor>x + 1 / 2\<rfloor> else - \<lfloor>- x + 1 / 2\<rfloor>)"

definition decimal :: "nat \<Rightarrow> nat \<Rightarrow> rat \<Rightarrow> error + rat" where
  "decimal p s x =
     (let r = rat_of_int (round_half_away (x * 10 ^ s)) / 10 ^ s
      in if \<bar>r\<bar> < 10 ^ (p - s) then Inr r else Inl NumericValueOutOfRange)"

text \<open>
  An \<open>INTEGER\<close> column holds 32 bits; a value outside is refused with the same SQLSTATE
  22003 as a numeric field overflow.
\<close>

definition int4_ok :: "int \<Rightarrow> bool" where
  "int4_ok n = (- 2147483648 \<le> n \<and> n \<le> 2147483647)"

record user_api_key =
  row_id :: nat
  user_id :: string
  openrouter_key_id :: string
  key_name :: string
  key_label :: "string option"
  monthly_limit :: "rat option"
  current_usage :: rat
  usage_reset_date :: date
  status :: key_status
  created_at :: nat
  updated_at :: nat
  last_used_at :: "nat option"

record api_usage_log =
  log_id :: nat
  log_user_id :: string
  api_key_id :: nat
  model :: string
  request_tokens :: int
  response_tokens :: int
  total_tokens :: int
  cost_usd :: rat
  endpoint :: "string option"
  agent_name :: "string option"
  request_duration_ms :: "int option"
  log_created_at :: nat

record db =
  user_api_keys :: "user_api_key list"
  api_usage_logs :: "api_usage_log list"
  next_id :: nat
  clock :: nat

definition empty_db :: db where
  "empty_db = \<lparr>user_api_keys = [], api_usage_logs = [], next_id = 0, clock = 0\<rparr>"

section \<open>SupabaseService: queries\<close>

text \<open>
  The rows that \<open>.eq('user_id', userId).eq('status', 'active')\<close> selects, in table order.
\<close>

definition active_keys_of :: "db \<Rightarrow> string \<Rightarrow> user_api_key list" where
  "active_keys_of s u = filter (\<lambda>k. user_id k = u \<and> status k = active) (user_api_keys s)"

text \<open>
  \<open>ORDER BY created_at DESC LIMIT 1\<close> over the active rows of a user: the query of
  \<open>getUserApiKey\<close> and the \<open>SELECT ... INTO\<close> of \<open>check_usage_limit\<close>.
\<close>

definition order_created_desc :: "user_api_key list \<Rightarrow> user_api_key list" where
  "order_created_desc ks = rev (sort_key created_at ks)"

definition latest_active_key :: "db \<Rightarrow> string \<Rightarrow> user_api_key option" where
  "latest_active_key s u =
     (case order_created_desc (active_keys_of s u) of [] \<Rightarrow> None | k # _ \<Rightarrow> Some k)"

text \<open>
  \<open>getUserApiKey\<close>: \<open>.limit(1).single()\<close> answers PGRST116 when no row is found; the method
  lets that code through and returns the null \<open>data\<close>.
\<close>

definition getUserApiKey :: "db \<Rightarrow> string \<Rightarrow> error + user_api_key option" where
  "getUserApiKey s u = Inr (latest_active_key s u)"

text \<open>
  \<open>getAllUsersWithKeys\<close>: every active row, newest first. The embedded \<open>profiles\<close> of the
  answer belong to a table outside the repository and are left out.
\<close>

definition getAllUsersWithKeys :: "db \<Rightarrow> user_api_key list" where
  "getAllUsersWithKeys s = order_created_desc (filter (\<lambda>k. status k = active) (user_api_keys s))"

text \<open>
  The SQL function \<open>check_usage_limit\<close>: with no active row both variables stay NULL, and a
  NULL limit returns TRUE; otherwise \<open>user_usage < user_limit\<close>.
\<close>

definition check_usage_limit :: "db \<Rightarrow> string \<Rightarrow> bool" where
  "check_usage_limit s u =
     (case latest_active_key s u of
        None \<Rightarrow> True
      | Some k \<Rightarrow> (case monthly_limit k of None \<Rightarrow> True | Some l \<Rightarrow> current_usage k < l))"

definition checkUserUsageLimit :: "db \<Rightarrow> string \<Rightarrow> error + bool" where
  "checkUserUsageLimit s u = Inr (check_usage_limit s u)"

section \<open>JavaScript values that reach a limit\<close>

text \<open>
  A limit in the controllers is a number, \<open>null\<close>, or (through the lookup in
  \<open>getDefaultMonthlyLimit\<close>, which also finds what the object literal inherits) a member
  of \<open>Object.prototype\<close>, named by its property.
\<close>

datatype js_limit = Num rat | Null | Member string

definition truthy :: "js_limit \<Rightarrow> bool" where
  "truthy v = (case v of Num r \<Rightarrow> r \<noteq> 0 | Null \<Rightarrow> False | Member _ \<Rightarrow> True)"

definition limit_of_column :: "rat option \<Rightarrow> js_limit" where
  "limit_of_column l = (case l of None \<Rightarrow> Null | Some r \<Rightarrow> Num r)"

text \<open>
  What the JSON body of an insert makes of a limit for the column
  \<open>monthly_limit DECIMAL(10,2)\<close>: a number is cast, \<open>null\<close> is NULL, a function-valued
  property is dropped by \<open>JSON.stringify\<close> (the column keeps its default NULL), and the
  prototype object itself serialises to an object that is no numeric.
\<close>

definition limit_column :: "js_limit \<Rightarrow> error + rat option" where
  "limit_column v =
     (case v of
        Num r \<Rightarrow> (case decimal 10 2 r of Inl e \<Rightarrow> Inl e | Inr d \<Rightarrow> Inr (Some d))
      | Null \<Rightarrow> Inr None
      | Member n \<Rightarrow> if n = ''__proto__'' then Inl InvalidNumeric else Inr None)"

section \<open>Key controller: getDefaultMonthlyLimit\<close>

definition limits :: "(string \<times> js_limit) list" where
  "limits =
     [(''free'', Num 10), (''standard'', Num 50), (''micro'', Num 100),
      (''operator'', Num 250), (''enterprise'', Num 500), (''beta'', Num 1000),
      (''admin'', Null), (''future4200'', Null)]"

definition object_prototype_members :: "string list" where
  "object_prototype_members =
     [''constructor'', ''__defineGetter__'', ''__defineSetter__'', ''hasOwnProperty'',
      ''__lookupGetter__'', ''__lookupSetter__'', ''isPrototypeOf'',
      ''propertyIsEnumerable'', ''toString'', ''valueOf'', ''__proto__'',
      ''toLocaleString'']"

text \<open>\<open>limits[subscriptionPlan]\<close>: an own property, else an inherited one, else undefined.\<close>

definition limits_lookup :: "string \<Rightarrow> js_limit option" where
  "limits_lookup subscriptionPlan =
     (case map_of limits subscriptionPlan of
        Some v \<Rightarrow> Some v
      | None \<Rightarrow> if subscriptionPlan \<in> set object_prototype_members
                then Some (Member subscriptionPlan) else None)"

text \<open>\<open>return limits[subscriptionPlan] || 10.00\<close>\<close>

definition getDefaultMonthlyLimit :: "string \<Rightarrow> js_limit" where
  "getDefaultMonthlyLimit subscriptionPlan =
     (case limits_lookup subscriptionPlan of
        Some v \<Rightarrow> if truthy v then v else Num 10
      | None \<Rightarrow> Num 10)"

section \<open>OpenRouterService\<close>

text \<open>
  The provisioning API and the \<open>subscriptions\<close> table are outside the repository: the model
  takes their answers from an environment. \<open>post_keys\<close> is
  \<open>makeRequest('POST', apiPath, body)\<close> followed by \<open>response.data\<close>, \<open>delete_keys\<close> is
  \<open>makeRequest('DELETE', apiPath/keyId)\<close>, and \<open>subscription_plan\<close> is the \<open>plan\<close> of the
  user's single active subscription, if there is one.
\<close>

record openrouter_key =
  ok_id :: string
  ok_name :: string
  ok_key :: string

record key_body =
  name :: string
  limit :: "js_limit option"
  label :: "string option"

record env =
  post_keys :: "key_body \<Rightarrow> error + openrouter_key"
  delete_keys :: "string \<Rightarrow> error + unit"
  subscription_plan :: "string \<Rightarrow> string option"

definition createKey :: "env \<Rightarrow> string \<Rightarrow> js_limit \<Rightarrow> string \<Rightarrow> error + openrouter_key" where
  "createKey e nm lmt lbl =
     post_keys e \<lparr>name = nm,
                  limit = (if truthy lmt then Some lmt else None),
                  label = (if lbl \<noteq> [] then Some lbl else None)\<rparr>"

definition deleteKey :: "env \<Rightarrow> string \<Rightarrow> error + unit" where
  "deleteKey e keyId = delete_keys e keyId"

definition createUserKey :: "env \<Rightarrow> string \<Rightarrow> js_limit \<Rightarrow> error + openrouter_key" where
  "createUserKey e userId monthlyLimit =
     createKey e (''Formul8 User '' @ userId) monthlyLimit (''user-'' @ userId)"

section \<open>SupabaseService: writes\<close>

text \<open>
  \<open>createUserApiKey\<close>: one INSERT. The columns the method does not name take their
  defaults (\<open>new_key_row\<close> is the stored row, \<open>inserted\<close> the store after the INSERT);
  the CHECK \<open>positive_limit\<close> rejects a limit that is not positive after the
  cast. A statement that fails leaves the database as it was.
\<close>

definition new_key_row ::
  "date \<Rightarrow> db \<Rightarrow> string \<Rightarrow> string \<Rightarrow> string \<Rightarrow> rat option \<Rightarrow> user_api_key" where
  "new_key_row today s userId openrouterKeyId keyName l =
     \<lparr>row_id = next_id s, user_id = userId, openrouter_key_id = openrouterKeyId,
      key_name = keyName, key_label = None, monthly_limit = l, current_usage = 0,
      usage_reset_date = date_trunc_month today, status = active,
      created_at = clock s, updated_at = clock s, last_used_at = None\<rparr>"

definition inserted :: "db \<Rightarrow> user_api_key \<Rightarrow> db" where
  "inserted s data =
     s\<lparr>user_api_keys := user_api_keys s @ [data],
       next_id := Suc (next_id s), clock := Suc (clock s)\<rparr>"

definition createUserApiKey ::
  "date \<Rightarrow> db \<Rightarrow> string \<Rightarrow> string \<Rightarrow> string \<Rightarrow> js_limit \<Rightarrow> (error + user_api_key) \<times> db" where
  "createUserApiKey today s userId openrouterKeyId keyName monthlyLimit =
     (case limit_column monthlyLimit of
        Inl e \<Rightarrow> (Inl e, s)
      | Inr l \<Rightarrow>
          if (case l of None \<Rightarrow> False | Some x \<Rightarrow> x \<le> 0)
          then (Inl (CheckViolation ''positive_limit''), s)
          else
            let data = new_key_row today s userId openrouterKeyId keyName l
            in (Inr data, inserted s data))"

text \<open>
  \<open>deactivateUserApiKey\<close>: an UPDATE of the user's active rows with \<open>.select().single()\<close>.
  When the statement does not return exactly one row the request answers PGRST116 and its
  transaction is rolled back; the method throws every error. The trigger
  \<open>on_user_api_keys_updated\<close> stamps \<open>updated_at\<close>. \<open>deactivated\<close> is the store after an
  UPDATE that went through.
\<close>

definition set_inactive :: "nat \<Rightarrow> string \<Rightarrow> user_api_key \<Rightarrow> user_api_key" where
  "set_inactive t u k =
     (if user_id k = u \<and> status k = active then k\<lparr>status := inactive, updated_at := t\<rparr> else k)"

definition deactivated :: "db \<Rightarrow> string \<Rightarrow> db" where
  "deactivated s userId =
     s\<lparr>user_api_keys := map (set_inactive (clock s) userId) (user_api_keys s),
       clock := Suc (clock s)\<rparr>"

definition deactivateUserApiKey :: "db \<Rightarrow> string \<Rightarrow> (error + user_api_key) \<times> db" where
  "deactivateUserApiKey s userId =
     (case active_keys_of s userId of
        [k] \<Rightarrow> (Inr (set_inactive (clock s) userId k), deactivated s userId)
      | _ \<Rightarrow> (Inl PGRST116, s))"

text \<open>
  The trigger function \<open>update_user_usage\<close>, row by row: the sum is stored into
  \<open>current_usage DECIMAL(10,2)\<close>.
\<close>

definition update_user_usage :: "nat \<Rightarrow> api_usage_log \<Rightarrow> user_api_key \<Rightarrow> error + user_api_key" where
  "update_user_usage t new k =
     (if row_id k = api_key_id new
      then (case decimal 10 2 (current_usage k + cost_usd new) of
              Inl e \<Rightarrow> Inl e
            | Inr c \<Rightarrow>
                if c < 0 then Inl (CheckViolation ''positive_usage'')
                else Inr (k\<lparr>current_usage := c, last_used_at := Some (log_created_at new),
                            updated_at := t\<rparr>))
      else Inr k)"

fun map_rows :: "('a \<Rightarrow> error + 'a) \<Rightarrow> 'a list \<Rightarrow> error + 'a list" where
  "map_rows f [] = Inr []"
| "map_rows f (x # xs) =
     (case f x of
        Inl e \<Rightarrow> Inl e
      | Inr y \<Rightarrow> (case map_rows f xs of Inl e \<Rightarrow> Inl e | Inr ys \<Rightarrow> Inr (y # ys)))"

record usage_data =
  ud_model :: string
  requestTokens :: "int option"
  responseTokens :: "int option"
  totalTokens :: "int option"
  costUsd :: "rat option"
  ud_endpoint :: "string option"
  agentName :: "string option"
  durationMs :: "int option"

definition or_zero :: "'a::zero option \<Rightarrow> 'a" where
  "or_zero v = (case v of None \<Rightarrow> 0 | Some x \<Rightarrow> x)"

text \<open>
  \<open>logApiUsage\<close>: one INSERT into \<open>api_usage_logs\<close>. The values are cast to the column
  types first (cost to \<open>DECIMAL(10,6)\<close>, token counts and duration to \<open>INTEGER\<close>), then the
  CHECK constraints are tested in the order of their names (\<open>positive_cost\<close> before
  \<open>positive_tokens\<close>), then the foreign key on \<open>api_key_id\<close>; the AFTER INSERT trigger
  \<open>on_api_usage_log_insert\<close> runs in the same statement.
\<close>

definition logApiUsage ::
  "db \<Rightarrow> string \<Rightarrow> nat \<Rightarrow> usage_data \<Rightarrow> (error + api_usage_log) \<times> db" where
  "logApiUsage s userId apiKeyId usageData =
     (case decimal 10 6 (or_zero (costUsd usageData)) of
        Inl e \<Rightarrow> (Inl e, s)
      | Inr cost \<Rightarrow>
          if \<not> (int4_ok (or_zero (requestTokens usageData))
                \<and> int4_ok (or_zero (responseTokens usageData))
                \<and> int4_ok (or_zero (totalTokens usageData))
                \<and> (case durationMs usageData of None \<Rightarrow> True | Some d \<Rightarrow> int4_ok d))
          then (Inl NumericValueOutOfRange, s)
          else if cost < 0 then (Inl (CheckViolation ''positive_cost''), s)
          else if or_zero (requestTokens usageData) < 0 \<or> or_zero (responseTokens usageData) < 0
             \<or> or_zero (totalTokens usageData) < 0
          then (Inl (CheckViolation ''positive_tokens''), s)
          else if apiKeyId \<notin> row_id ` set (user_api_keys s)
          then (Inl (ForeignKeyViolation ''api_key_id''), s)
          else
            let new = \<lparr>log_id = next_id s, log_user_id = userId, api_key_id = apiKeyId,
                       model = ud_model usageData,
                       request_tokens = or_zero (requestTokens usageData),
                       response_tokens = or_zero (responseTokens usageData),
                       total_tokens = or_zero (totalTokens usageData),
                       cost_usd = cost, endpoint = ud_endpoint usageData,
                       agent_name = agentName usageData,
                       request_duration_ms = durationMs usageData,
                       log_created_at = clock s\<rparr>
            in (case map_rows (update_user_usage (clock s) new) (user_api_keys s) of
                  Inl e \<Rightarrow> (Inl e, s)
                | Inr ks \<Rightarrow>
                    (Inr new,
                     s\<lparr>user_api_keys := ks, api_usage_logs := api_usage_logs s @ [new],
                       next_id := Suc (next_id s), clock := Suc (clock s)\<rparr>)))"

text \<open>The SQL function \<open>reset_monthly_usage\<close> and its caller \<open>resetAllMonthlyUsage\<close>.\<close>

definition reset_due :: "date \<Rightarrow> user_api_key \<Rightarrow> bool" where
  "reset_due today k = date_less (usage_reset_date k) (date_trunc_month today)"

definition reset_row :: "date \<Rightarrow> nat \<Rightarrow> user_api_key \<Rightarrow> user_api_key" where
  "reset_row today t k =
     (if reset_due today k
      then k\<lparr>current_usage := 0, usage_reset_date := date_trunc_month today, updated_at := t\<rparr>
      else k)"

definition reset_monthly_usage :: "date \<Rightarrow> db \<Rightarrow> nat \<times> db" where
  "reset_monthly_usage today s =
     (length (filter (reset_due today) (user_api_keys s)),
      s\<lparr>user_api_keys := map (reset_row today (clock s)) (user_api_keys s),
        clock := Suc (clock s)\<rparr>)"

definition resetAllMonthlyUsage :: "date \<Rightarrow> db \<Rightarrow> (error + nat) \<times> db" where
  "resetAllMonthlyUsage today s =
     (case reset_monthly_usage today s of (n, s') \<Rightarrow> (Inr n, s'))"

section \<open>Key controller: POST /api/keys/create-user\<close>

record create_user_body =
  userId :: string
  monthlyLimit :: "rat option"

datatype create_user_response =
    BadRequest
  | Conflict user_api_key
  | Created user_api_key openrouter_key
  | ServerError error

text \<open>
  \<open>createUserKeySchema\<close> admits a \<open>monthlyLimit\<close> only when it is positive. The format of
  \<open>userId\<close> is not modelled: user ids range over the strings that are UUIDs.
\<close>

definition createUserKeySchema_ok :: "create_user_body \<Rightarrow> bool" where
  "createUserKeySchema_ok b = (case monthlyLimit b of None \<Rightarrow> True | Some m \<Rightarrow> 0 < m)"

definition plan_or_free :: "string option \<Rightarrow> string" where
  "plan_or_free p = (case p of None \<Rightarrow> ''free'' | Some x \<Rightarrow> if x = [] then ''free'' else x)"

text \<open>
  \<open>defaultLimit\<close> from the plan of the subscription, and
  \<open>finalLimit = monthlyLimit || defaultLimit\<close>.
\<close>

definition final_limit :: "env \<Rightarrow> create_user_body \<Rightarrow> js_limit" where
  "final_limit e b =
     (let defaultLimit =
            getDefaultMonthlyLimit (plan_or_free (subscription_plan e (userId b)))
      in case monthlyLimit b of
           Some m \<Rightarrow> if truthy (Num m) then Num m else defaultLimit
         | None \<Rightarrow> defaultLimit)"

definition create_user :: "env \<Rightarrow> date \<Rightarrow> db \<Rightarrow> create_user_body \<Rightarrow> create_user_response \<times> db" where
  "create_user e today s b =
     (if \<not> createUserKeySchema_ok b then (BadRequest, s)
      else
        (case getUserApiKey s (userId b) of
           Inl err \<Rightarrow> (ServerError err, s)
         | Inr (Some existingKey) \<Rightarrow> (Conflict existingKey, s)
         | Inr None \<Rightarrow>
             (let finalLimit = final_limit e b
              in (case createUserKey e (userId b) finalLimit of
                    Inl err \<Rightarrow> (ServerError err, s)
                  | Inr openRouterKey \<Rightarrow>
                      (case createUserApiKey today s (userId b) (ok_id openRouterKey)
                              (ok_name openRouterKey) finalLimit of
                         (Inl err, s') \<Rightarrow> (ServerError err, s')
                       | (Inr userApiKey, s') \<Rightarrow> (Created userApiKey openRouterKey, s'))))))"

section \<open>KeyRotationService\<close>

text \<open>
  \<open>rotateUserKey\<close>: look the active key up, deactivate it, ask the provider for a new key
  with the same limit, store it. Deleting the old provider key is best effort: its outcome
  changes neither the result nor the tables.
\<close>

definition rotateUserKey ::
  "env \<Rightarrow> date \<Rightarrow> db \<Rightarrow> string \<Rightarrow> bool \<Rightarrow> (error + user_api_key \<times> user_api_key) \<times> db" where
  "rotateUserKey e today s u deleteOld =
     (case getUserApiKey s u of
        Inl err \<Rightarrow> (Inl err, s)
      | Inr None \<Rightarrow> (Inl (NoActiveKey u), s)
      | Inr (Some currentKey) \<Rightarrow>
          (case deactivateUserApiKey s u of
             (Inl err, s1) \<Rightarrow> (Inl err, s1)
           | (Inr _, s1) \<Rightarrow>
               (case createUserKey e u (limit_of_column (monthly_limit currentKey)) of
                  Inl err \<Rightarrow> (Inl err, s1)
                | Inr newOpenRouterKey \<Rightarrow>
                    (case createUserApiKey today s1 u (ok_id newOpenRouterKey)
                            (ok_name newOpenRouterKey)
                            (limit_of_column (monthly_limit currentKey)) of
                       (Inl err, s2) \<Rightarrow> (Inl err, s2)
                     | (Inr newUserApiKey, s2) \<Rightarrow>
                         (if deleteOld
                          then (case deleteKey e (openrouter_key_id currentKey) of
                                  Inl _ \<Rightarrow> (Inr (currentKey, newUserApiKey), s2)
                                | Inr _ \<Rightarrow> (Inr (currentKey, newUserApiKey), s2))
                          else (Inr (currentKey, newUserApiKey), s2))))))"

record rotation_result =
  rr_userId :: string
  success :: bool
  rr_error :: "error option"

text \<open>The loop of \<open>rotateAllUserKeys\<close> over the rows read before the first rotation.\<close>

fun rotate_each :: "env \<Rightarrow> date \<Rightarrow> user_api_key list \<Rightarrow> db \<Rightarrow> rotation_result list \<times> db" where
  "rotate_each e today [] s = ([], s)"
| "rotate_each e today (userKey # rest) s =
     (case rotateUserKey e today s (user_id userKey) False of
        (r, s1) \<Rightarrow>
          (case rotate_each e today rest s1 of
             (results, s2) \<Rightarrow>
               ((case r of
                   Inr _ \<Rightarrow> \<lparr>rr_userId = user_id userKey, success = True, rr_error = None\<rparr>
                 | Inl err \<Rightarrow> \<lparr>rr_userId = user_id userKey, success = False,
                               rr_error = Some err\<rparr>) # results,
                s2)))"

definition rotateAllUserKeys :: "env \<Rightarrow> date \<Rightarrow> db \<Rightarrow> rotation_result list \<times> db" where
  "rotateAllUserKeys e today s = rotate_each e today (getAllUsersWithKeys s) s"

section \<open>UsageMonitoringService and the limit route\<close>

datatype alert_type = critical | warning

record alert =
  a_type :: alert_type
  a_userId :: string
  usage :: rat
  a_limit :: rat
  percentage :: rat

text \<open>
  A JavaScript number is an IEEE 754 double, modelled by the rational it denotes.
  \<open>to_double\<close> rounds a rational to the nearest double, ties to the even mantissa: it is
  what parsing a number of the JSON answer does, and what a numeric literal denotes.
  \<open>js_div\<close> is the division of two doubles, the exact quotient rounded once. The
  amounts of this program and their quotients lie far inside the normal range, so
  subnormal numbers, overflow and NaN are left out.
\<close>

definition round_half_even :: "rat \<Rightarrow> int" where
  "round_half_even x =
     (let f = \<lfloor>x\<rfloor>; d = x - rat_of_int f
      in if d < 1 / 2 then f else if 1 / 2 < d then f + 1 else if even f then f else f + 1)"

definition floor_log2 :: "rat \<Rightarrow> int" where
  "floor_log2 x =
     (case quotient_of x of
        (p, q) \<Rightarrow> let e = bitlen p - bitlen q in if 2 powi e \<le> x then e else e - 1)"

definition to_double :: "rat \<Rightarrow> rat" where
  "to_double x =
     (if x = 0 then 0
      else let ulp = 2 powi (floor_log2 \<bar>x\<bar> - 52)
           in rat_of_int (round_half_even (x / ulp)) * ulp)"

definition js_div :: "rat \<Rightarrow> rat \<Rightarrow> rat" where
  "js_div x y = to_double (x / y)"

text \<open>
  The body of the loop of \<open>checkUsageLimits\<close>: \<open>usage\<close> and \<open>limit\<close> are the doubles parsed
  from the row, \<open>!limit\<close> holds for null and for 0, and the quotient is compared with the
  doubles of the literals 0.95 and 0.8.
\<close>

definition usage_alert :: "user_api_key \<Rightarrow> alert option" where
  "usage_alert userKey =
     (let usage = to_double (current_usage userKey)
      in case monthly_limit userKey of
           None \<Rightarrow> None
         | Some l \<Rightarrow>
             (let lmt = to_double l
              in if lmt = 0 then None
                 else
                   (let usagePercentage = js_div usage lmt
                    in if usagePercentage \<ge> to_double (95 / 100)
                       then Some \<lparr>a_type = critical, a_userId = user_id userKey,
                                  usage = usage, a_limit = lmt,
                                  percentage = usagePercentage\<rparr>
                       else if usagePercentage \<ge> to_double (8 / 10)
                       then Some \<lparr>a_type = warning, a_userId = user_id userKey,
                                  usage = usage, a_limit = lmt,
                                  percentage = usagePercentage\<rparr>
                       else None)))"

definition checkUsageLimits :: "db \<Rightarrow> alert list" where
  "checkUsageLimits s = List.map_filter usage_alert (getAllUsersWithKeys s)"

text \<open>
  GET /api/usage/:userId/limit. A field read through \<open>userApiKey?.\<close> is undefined (outer
  \<open>None\<close>) when there is no active key; \<open>monthly_limit\<close> may also be null (inner \<open>None\<close>).
  The route answers 200 with these data whenever both store calls return.
\<close>

record limit_data =
  withinLimit :: bool
  ld_monthlyLimit :: "rat option option"
  ld_currentUsage :: "rat option"
  ld_usageResetDate :: "date option"

definition limit_route :: "db \<Rightarrow> string \<Rightarrow> error + limit_data" where
  "limit_route s u =
     (case checkUserUsageLimit s u of
        Inl err \<Rightarrow> Inl err
      | Inr w \<Rightarrow>
          (case getUserApiKey s u of
             Inl err \<Rightarrow> Inl err
           | Inr userApiKey \<Rightarrow>
               Inr \<lparr>withinLimit = w,
                    ld_monthlyLimit = map_option monthly_limit userApiKey,
                    ld_currentUsage = map_option current_usage userApiKey,
                    ld_usageResetDate = map_option usage_reset_date userApiKey\<rparr>))"

section \<open>Sequences of lifecycle operations\<close>

datatype request =
    CreateKeyForUser env date create_user_body
  | RotateKeyForUser env date string bool
  | DeactivateKeyForUser string

fun step :: "db \<Rightarrow> request \<Rightarrow> db" where
  "step s (CreateKeyForUser e today b) = snd (create_user e today s b)"
| "step s (RotateKeyForUser e today u deleteOld) = snd (rotateUserKey e today s u deleteOld)"
| "step s (DeactivateKeyForUser u) = snd (deactivateUserApiKey s u)"

definition run :: "db \<Rightarrow> request list \<Rightarrow> db" where
  "run s rs = foldl step s rs"

definition unique_active :: "db \<Rightarrow> bool" where
  "unique_active s = (\<forall>u. length (active_keys_of s u) \<le> 1)"

section \<open>Sample data\<close>

definition alice :: string where
  "alice = ''00000000-0000-4000-8000-00000000000a''"

definition bob :: string where
  "bob = ''00000000-0000-4000-8000-00000000000b''"

definition carol :: string where
  "carol = ''00000000-0000-4000-8000-00000000000c''"

text \<open>A provider that answers every request, and one that refuses the key of one user.\<close>

definition issue_key :: "key_body \<Rightarrow> openrouter_key" where
  "issue_key body = \<lparr>ok_id = ''hash-'' @ name body, ok_name = name body, ok_key = ''sk-or-v1''\<rparr>"

definition provider_up :: env where
  "provider_up =
     \<lparr>post_keys = (\<lambda>body. Inr (issue_key body)),
      delete_keys = (\<lambda>_. Inr ()),
      subscription_plan = (\<lambda>_. None)\<rparr>"

definition provider_refusing :: "string \<Rightarrow> env" where
  "provider_refusing u =
     \<lparr>post_keys = (\<lambda>body. if name body = ''Formul8 User '' @ u
                           then Inl (HttpError ''HTTP 500'') else Inr (issue_key body)),
      delete_keys = (\<lambda>_. Inr ()),
      subscription_plan = (\<lambda>_. None)\<rparr>"

definition sample_key :: "string \<Rightarrow> rat option \<Rightarrow> rat \<Rightarrow> user_api_key" where
  "sample_key u l c =
     \<lparr>row_id = 0, user_id = u, openrouter_key_id = ''hash-0'', key_name = ''Formul8 User '' @ u,
      key_label = None, monthly_limit = l, current_usage = c, usage_reset_date = (2026, 11, 1),
      status = active, created_at = 0, updated_at = 0, last_used_at = None\<rparr>"

definition sample_db :: "string \<Rightarrow> rat option \<Rightarrow> rat \<Rightarrow> db" where
  "sample_db u l c =
     \<lparr>user_api_keys = [sample_key u l c], api_usage_logs = [], next_id = 1, clock = 1\<rparr>"

text \<open>Three users with one active key each; the scan lists carol, bob, alice.\<close>

definition three_db :: db where
  "three_db =
     \<lparr>user_api_keys =
        [(sample_key alice (Some 50) 12)\<lparr>row_id := 0, created_at := 0\<rparr>,
         (sample_key bob (Some 10) 3)\<lparr>row_id := 1, created_at := 1\<rparr>,
         (sample_key carol None 7)\<lparr>row_id := 2, created_at := 2\<rparr>],
      api_usage_logs = [], next_id = 3, clock = 3\<rparr>"

definition sample_usage :: "rat \<Rightarrow> usage_data" where
  "sample_usage c =
     \<lparr>ud_model = ''anthropic/claude-3.5-sonnet'', requestTokens = Some 12,
      responseTokens = Some 30, totalTokens = Some 42, costUsd = Some c,
      ud_endpoint = None, agentName = None, durationMs = None\<rparr>"

section \<open>Observations on a store\<close>

text \<open>
  A limit as a row of \<open>user_api_keys\<close> can hold it: NULL, or a positive amount of two
  decimals that fits the column (its type and the CHECK \<open>positive_limit\<close>).
\<close>

definition stored_limit :: "rat option \<Rightarrow> bool" where
  "stored_limit l = (case l of None \<Rightarrow> True | Some x \<Rightarrow> decimal 10 2 x = Inr x \<and> 0 < x)"

text \<open>The sum of \<open>cost_usd\<close> over the log rows that reference a key, and the usage of a key.\<close>

definition logged_cost :: "db \<Rightarrow> nat \<Rightarrow> rat" where
  "logged_cost s i = sum_list (map cost_usd (filter (\<lambda>l. api_key_id l = i) (api_usage_logs s)))"

definition usage_of :: "db \<Rightarrow> nat \<Rightarrow> rat list" where
  "usage_of s i = map current_usage (filter (\<lambda>k. row_id k = i) (user_api_keys s))"

section \<open>Facts about the queries\<close>

lemma floor_rat_numeral: "\<lfloor>numeral a / numeral b :: rat\<rfloor> = numeral a div numeral b"
  by (metis floor_divide_of_int_eq of_int_numeral)

lemma set_order_created_desc: "set (order_created_desc ks) = set ks"
  by (simp add: order_created_desc_def)

lemma order_created_desc_Nil: "order_created_desc ks = [] \<longleftrightarrow> ks = []"
  by (metis set_order_created_desc set_empty)

lemma order_created_desc_single: "order_created_desc [k] = [k]"
  by (simp add: order_created_desc_def)

lemma latest_active_key_None: "latest_active_key s u = None \<longleftrightarrow> active_keys_of s u = []"
  using order_created_desc_Nil [of "active_keys_of s u"]
  by (auto simp: latest_active_key_def split: list.splits)

lemma latest_active_key_mem: "latest_active_key s u = Some k \<Longrightarrow> k \<in> set (active_keys_of s u)"
proof -
  assume "latest_active_key s u = Some k"
  then have "k \<in> set (order_created_desc (active_keys_of s u))"
    by (auto simp: latest_active_key_def split: list.splits)
  then show ?thesis by (simp add: set_order_created_desc)
qed

lemma latest_active_key_single: "active_keys_of s u = [k] \<Longrightarrow> latest_active_key s u = Some k"
  by (simp add: latest_active_key_def order_created_desc_single)

lemma no_record_no_active: "u \<notin> user_id ` set (user_api_keys s) \<Longrightarrow> active_keys_of s u = []"
  by (auto simp: active_keys_of_def filter_empty_conv)

section \<open>Limit check\<close>

text \<open>
  C10. For a user with an active key whose monthly limit is set, the limit check answers
  "within limit" exactly when the current usage is strictly below the limit, so at
  equality the user is already reported as exceeded.
\<close>

theorem check_limit_strict:
  "getUserApiKey s u = Inr (Some k) \<Longrightarrow> monthly_limit k = Some l \<Longrightarrow>
     checkUserUsageLimit s u = Inr (current_usage k < l) \<and>
     (current_usage k = l \<longrightarrow> checkUserUsageLimit s u = Inr False)"
  by (simp add: getUserApiKey_def checkUserUsageLimit_def check_usage_limit_def)

text \<open>C10 at a key with limit 10.00 and usage 10.00: not within the limit.\<close>

theorem check_limit_strict_witness:
  "getUserApiKey (sample_db alice (Some 10) 10) alice = Inr (Some (sample_key alice (Some 10) 10)) \<and>
   monthly_limit (sample_key alice (Some 10) 10) = Some 10 \<and>
   current_usage (sample_key alice (Some 10) 10) = 10 \<and>
   checkUserUsageLimit (sample_db alice (Some 10) 10) alice = Inr False"
proof -
  have g: "getUserApiKey (sample_db alice (Some 10) 10) alice = Inr (Some (sample_key alice (Some 10) 10))"
    by (simp add: getUserApiKey_def latest_active_key_def active_keys_of_def
        order_created_desc_def sample_db_def sample_key_def)
  have m: "monthly_limit (sample_key alice (Some 10) 10) = Some 10"
    by (simp add: sample_key_def)
  have c: "current_usage (sample_key alice (Some 10) 10) = 10"
    by (simp add: sample_key_def)
  from check_limit_strict [OF g m] g m c show ?thesis by simp
qed

section \<open>Tier limits\<close>

text \<open>
  C4. The table entry of the tier \<open>admin\<close> is \<open>null\<close> (unlimited), but
  \<open>getDefaultMonthlyLimit\<close> returns 10.00 for it, because \<open>null || 10.00\<close> is 10.00; a key
  created for a user on the admin plan without an explicit limit is stored with the
  limit 10.00.
\<close>

theorem admin_tier_limit:
  "map_of limits ''admin'' = Some Null \<and> getDefaultMonthlyLimit ''admin'' = Num 10 \<and>
   (\<exists>k ok s'. create_user (provider_up\<lparr>subscription_plan := (\<lambda>_. Some ''admin'')\<rparr>) (2026, 11, 2) empty_db
        \<lparr>userId = alice, monthlyLimit = None\<rparr> = (Created k ok, s') \<and> monthly_limit k = Some 10)"
  by (simp add: getDefaultMonthlyLimit_def limits_lookup_def limits_def truthy_def
      create_user_def createUserKeySchema_ok_def getUserApiKey_def latest_active_key_def
      active_keys_of_def order_created_desc_def empty_db_def plan_or_free_def
      createUserKey_def createKey_def provider_up_def createUserApiKey_def new_key_row_def
      inserted_def final_limit_def limit_column_def decimal_def round_half_away_def Let_def floor_rat_numeral)

section \<open>Lookups of a user without a record\<close>

text \<open>
  C9, as stated, fails: with a key of alice that has no limit and no record of bob, the
  limit check returns the same for bob as for alice, and the limit route answers bob with
  a success.
\<close>

theorem missing_user_same_as_unlimited:
  "checkUserUsageLimit (sample_db alice None 0) bob = checkUserUsageLimit (sample_db alice None 0) alice \<and>
   bob \<notin> user_id ` set (user_api_keys (sample_db alice None 0)) \<and>
   map_option monthly_limit (latest_active_key (sample_db alice None 0) alice) = Some None \<and>
   limit_route (sample_db alice None 0) bob =
     Inr \<lparr>withinLimit = True, ld_monthlyLimit = None, ld_currentUsage = None,
          ld_usageResetDate = None\<rparr>"
  by (simp add: checkUserUsageLimit_def check_usage_limit_def latest_active_key_def
      active_keys_of_def order_created_desc_def sample_db_def sample_key_def alice_def bob_def
      limit_route_def getUserApiKey_def)

text \<open>
  C9, amended. For a user id without any key record, the key lookup returns null, while the
  limit check returns true (within limit) and the limit route answers with a success that
  carries no limit, usage or reset date: the same result of the check as for any user whose
  active key has no limit.
\<close>

theorem missing_user_lookups:
  "u \<notin> user_id ` set (user_api_keys s) \<Longrightarrow>
     getUserApiKey s u = Inr None \<and>
     checkUserUsageLimit s u = Inr True \<and>
     limit_route s u =
       Inr \<lparr>withinLimit = True, ld_monthlyLimit = None, ld_currentUsage = None,
            ld_usageResetDate = None\<rparr> \<and>
     (\<forall>v k. getUserApiKey s v = Inr (Some k) \<and> monthly_limit k = None \<longrightarrow>
        checkUserUsageLimit s v = checkUserUsageLimit s u)"
proof -
  assume a: "u \<notin> user_id ` set (user_api_keys s)"
  have n: "latest_active_key s u = None"
    using a by (simp add: latest_active_key_None no_record_no_active)
  have g: "getUserApiKey s u = Inr None"
    by (simp add: getUserApiKey_def n)
  have c: "checkUserUsageLimit s u = Inr True"
    by (simp add: checkUserUsageLimit_def check_usage_limit_def n)
  have r: "limit_route s u =
           Inr \<lparr>withinLimit = True, ld_monthlyLimit = None, ld_currentUsage = None,
                ld_usageResetDate = None\<rparr>"
    by (simp add: limit_route_def c getUserApiKey_def n)
  have e: "\<forall>v k. getUserApiKey s v = Inr (Some k) \<and> monthly_limit k = None \<longrightarrow>
           checkUserUsageLimit s v = checkUserUsageLimit s u"
    by (auto simp: c) (auto simp: checkUserUsageLimit_def check_usage_limit_def getUserApiKey_def)
  from g c r e show ?thesis by blast
qed

text \<open>C9, amended, at bob (no record) beside alice (a key without limit).\<close>

theorem missing_user_lookups_witness:
  "bob \<notin> user_id ` set (user_api_keys (sample_db alice None 0)) \<and>
   getUserApiKey (sample_db alice None 0) alice = Inr (Some (sample_key alice None 0)) \<and>
   monthly_limit (sample_key alice None 0) = None \<and>
   getUserApiKey (sample_db alice None 0) bob = Inr None \<and>
   checkUserUsageLimit (sample_db alice None 0) bob = Inr True \<and>
   checkUserUsageLimit (sample_db alice None 0) alice = Inr True"
proof -
  have h: "bob \<notin> user_id ` set (user_api_keys (sample_db alice None 0))"
    by (simp add: sample_db_def sample_key_def alice_def bob_def)
  have g: "getUserApiKey (sample_db alice None 0) alice = Inr (Some (sample_key alice None 0))"
    by (simp add: getUserApiKey_def latest_active_key_def active_keys_of_def
        order_created_desc_def sample_db_def sample_key_def)
  have m: "monthly_limit (sample_key alice None 0) = None"
    by (simp add: sample_key_def)
  from missing_user_lookups [OF h] g m h show ?thesis by auto
qed

section \<open>Deactivation\<close>

text \<open>
  C8, as stated, fails: deactivating alice's key a second time, when her only record is
  already inactive, is answered with the error PGRST116.
\<close>

theorem deactivate_twice_fails:
  "deactivateUserApiKey (snd (deactivateUserApiKey (sample_db alice (Some 10) 0) alice)) alice =
     (Inl PGRST116, snd (deactivateUserApiKey (sample_db alice (Some 10) 0) alice))"
  by (simp add: deactivateUserApiKey_def deactivated_def active_keys_of_def sample_db_def
      sample_key_def set_inactive_def)

text \<open>
  C8, amended. For a user without an active record, \<open>deactivateUserApiKey\<close> changes nothing
  in the store and fails with the error PGRST116 (no row returned).
\<close>

theorem deactivate_without_active_key:
  "active_keys_of s u = [] \<Longrightarrow> deactivateUserApiKey s u = (Inl PGRST116, s)"
  by (simp add: deactivateUserApiKey_def)

text \<open>C8, amended, at a store whose only record of alice is inactive.\<close>

theorem deactivate_without_active_key_witness:
  "active_keys_of (sample_db alice (Some 10) 0\<lparr>user_api_keys :=
       [(sample_key alice (Some 10) 0)\<lparr>status := inactive\<rparr>]\<rparr>) alice = [] \<and>
   deactivateUserApiKey (sample_db alice (Some 10) 0\<lparr>user_api_keys :=
       [(sample_key alice (Some 10) 0)\<lparr>status := inactive\<rparr>]\<rparr>) alice =
     (Inl PGRST116, sample_db alice (Some 10) 0\<lparr>user_api_keys :=
       [(sample_key alice (Some 10) 0)\<lparr>status := inactive\<rparr>]\<rparr>)"
proof -
  have h: "active_keys_of (sample_db alice (Some 10) 0\<lparr>user_api_keys :=
       [(sample_key alice (Some 10) 0)\<lparr>status := inactive\<rparr>]\<rparr>) alice = []"
    by (simp add: active_keys_of_def sample_db_def sample_key_def)
  from deactivate_without_active_key [OF h] h show ?thesis by simp
qed

section \<open>Monthly reset\<close>

lemma date_less_irrefl: "\<not> date_less d d"
  by (simp add: date_less_def split: prod.splits)

lemma reset_row_not_due: "date_trunc_month today' = date_trunc_month today \<Longrightarrow>
    \<not> reset_due today' (reset_row today t k)"
  by (simp add: reset_row_def reset_due_def date_less_irrefl)

lemma reset_due_eq:
  "reset_due today = (\<lambda>k. date_less (usage_reset_date k) (date_trunc_month today))"
  by (simp add: fun_eq_iff reset_due_def)

lemma reset_row_cases:
  "reset_row today t k =
     (if date_less (usage_reset_date k) (date_trunc_month today)
      then k\<lparr>current_usage := 0, usage_reset_date := date_trunc_month today, updated_at := t\<rparr>
      else k)"
  by (simp add: reset_row_def reset_due_def)

text \<open>
  C7. The monthly reset returns the number of records whose reset date lies strictly before
  the start of the current cycle; it sets the usage of exactly these records to 0 and
  their reset date to the start of the cycle, and leaves every other record as it is. Run
  again in the same cycle, it affects no record: it returns 0 and the table is unchanged.
\<close>

theorem reset_idempotent:
  "resetAllMonthlyUsage today s = (r, s1) \<Longrightarrow> date_trunc_month today' = date_trunc_month today \<Longrightarrow>
     r = Inr (length (filter (\<lambda>k. date_less (usage_reset_date k) (date_trunc_month today))
                        (user_api_keys s))) \<and>
     length (user_api_keys s1) = length (user_api_keys s) \<and>
     (\<forall>i < length (user_api_keys s).
        if date_less (usage_reset_date (user_api_keys s ! i)) (date_trunc_month today)
        then current_usage (user_api_keys s1 ! i) = 0 \<and>
             usage_reset_date (user_api_keys s1 ! i) = date_trunc_month today \<and>
             status (user_api_keys s1 ! i) = status (user_api_keys s ! i) \<and>
             monthly_limit (user_api_keys s1 ! i) = monthly_limit (user_api_keys s ! i)
        else user_api_keys s1 ! i = user_api_keys s ! i) \<and>
     fst (resetAllMonthlyUsage today' s1) = Inr 0 \<and>
     user_api_keys (snd (resetAllMonthlyUsage today' s1)) = user_api_keys s1"
proof -
  assume a: "resetAllMonthlyUsage today s = (r, s1)"
    and c: "date_trunc_month today' = date_trunc_month today"
  have r: "r = Inr (length (filter (\<lambda>k. date_less (usage_reset_date k) (date_trunc_month today))
                        (user_api_keys s)))"
    using a by (auto simp: resetAllMonthlyUsage_def reset_monthly_usage_def reset_due_eq)
  have ks: "user_api_keys s1 = map (reset_row today (clock s)) (user_api_keys s)"
    using a by (auto simp: resetAllMonthlyUsage_def reset_monthly_usage_def)
  have len: "length (user_api_keys s1) = length (user_api_keys s)"
    by (simp add: ks)
  have rows: "\<forall>i < length (user_api_keys s).
        if date_less (usage_reset_date (user_api_keys s ! i)) (date_trunc_month today)
        then current_usage (user_api_keys s1 ! i) = 0 \<and>
             usage_reset_date (user_api_keys s1 ! i) = date_trunc_month today \<and>
             status (user_api_keys s1 ! i) = status (user_api_keys s ! i) \<and>
             monthly_limit (user_api_keys s1 ! i) = monthly_limit (user_api_keys s ! i)
        else user_api_keys s1 ! i = user_api_keys s ! i"
    by (simp add: ks reset_row_cases)
  have none: "filter (reset_due today') (user_api_keys s1) = []"
    by (simp add: ks filter_empty_conv reset_row_not_due [OF c])
  have same: "map (reset_row today' t) (user_api_keys s1) = user_api_keys s1" for t
  proof (rule map_idI)
    fix k assume "k \<in> set (user_api_keys s1)"
    with none have "\<not> reset_due today' k"
      by (simp add: filter_empty_conv)
    then show "reset_row today' t k = k"
      by (simp add: reset_row_def)
  qed
  have z: "fst (resetAllMonthlyUsage today' s1) = Inr 0"
    by (simp add: resetAllMonthlyUsage_def reset_monthly_usage_def none)
  have u: "user_api_keys (snd (resetAllMonthlyUsage today' s1)) = user_api_keys s1"
    by (simp add: resetAllMonthlyUsage_def reset_monthly_usage_def same)
  from r len rows z u show ?thesis by blast
qed

text \<open>
  C7 on a key last reset in November 2026: the reset of 1 December affects one record, a
  second reset on 20 December none.
\<close>

theorem reset_idempotent_witness:
  "fst (resetAllMonthlyUsage (2026, 12, 1) (sample_db alice (Some 10) (17 / 2))) = Inr 1 \<and>
   map current_usage (user_api_keys (snd (resetAllMonthlyUsage (2026, 12, 1)
       (sample_db alice (Some 10) (17 / 2))))) = [0] \<and>
   date_trunc_month (2026, 12, 20) = date_trunc_month (2026, 12, 1) \<and>
   fst (resetAllMonthlyUsage (2026, 12, 20)
     (snd (resetAllMonthlyUsage (2026, 12, 1) (sample_db alice (Some 10) (17 / 2))))) = Inr 0"
proof -
  have c: "date_trunc_month (2026, 12, 20) = date_trunc_month (2026, 12, 1)"
    by (simp add: date_trunc_month_def)
  have f: "fst (resetAllMonthlyUsage (2026, 12, 1) (sample_db alice (Some 10) (17 / 2))) = Inr 1"
    by (simp add: resetAllMonthlyUsage_def reset_monthly_usage_def reset_due_def
        date_less_def date_trunc_month_def sample_db_def sample_key_def)
  have m: "map current_usage (user_api_keys (snd (resetAllMonthlyUsage (2026, 12, 1)
       (sample_db alice (Some 10) (17 / 2))))) = [0]"
    by (simp add: resetAllMonthlyUsage_def reset_monthly_usage_def reset_due_def reset_row_def
        date_less_def date_trunc_month_def sample_db_def sample_key_def)
  from reset_idempotent [OF prod.collapse [symmetric] c] f m c show ?thesis by simp
qed

section \<open>Usage accounting\<close>

text \<open>
  C2. A usage log with a cost of 0.004 is stored with that cost, but the trigger writes the
  sum into \<open>current_usage DECIMAL(10,2)\<close>: the usage of the key stays 0.00. With a cost of
  0.005 the usage becomes 0.01.
\<close>

theorem sub_cent_cost_not_counted:
  "\<not> isl (fst (logApiUsage (sample_db alice (Some 10) 0) alice 0 (sample_usage (4 / 1000)))) \<and>
   logged_cost (snd (logApiUsage (sample_db alice (Some 10) 0) alice 0 (sample_usage (4 / 1000)))) 0
     = 4 / 1000 \<and>
   usage_of (snd (logApiUsage (sample_db alice (Some 10) 0) alice 0 (sample_usage (4 / 1000)))) 0
     = [0] \<and>
   logged_cost (snd (logApiUsage (sample_db alice (Some 10) 0) alice 0 (sample_usage (5 / 1000)))) 0
     = 5 / 1000 \<and>
   usage_of (snd (logApiUsage (sample_db alice (Some 10) 0) alice 0 (sample_usage (5 / 1000)))) 0
     = [1 / 100]"
  by (simp add: logApiUsage_def sample_db_def sample_key_def sample_usage_def or_zero_def
      decimal_def round_half_away_def floor_rat_numeral update_user_usage_def Let_def
      logged_cost_def usage_of_def int4_ok_def)

section \<open>Usage thresholds\<close>

lemma double_facts:
  "to_double 10 = 10"
  "to_double (17 / 2) = 17 / 2"
  "to_double (19 / 2) = 19 / 2"
  "to_double (4 / 5) \<le> to_double (17 / 20)"
  "\<not> to_double (19 / 20) \<le> to_double (17 / 20)"
  by code_simp+

text \<open>
  The rounding of the doubles decides at a quotient that is exactly a threshold: 0.08 of
  0.10 and 2.40 of 3.00 stay below the double of 0.8, and 2.09 of 2.20 stays below the
  double of 0.95.
\<close>

lemma double_rounding_examples:
  "js_div (to_double (8 / 100)) (to_double (10 / 100)) < to_double (8 / 10)"
  "js_div (to_double (240 / 100)) (to_double (300 / 100)) < to_double (8 / 10)"
  "js_div (to_double (209 / 100)) (to_double (220 / 100)) < to_double (95 / 100)"
  "to_double (8 / 10) \<le> js_div (to_double (209 / 100)) (to_double (220 / 100))"
  by code_simp+

lemma active_key_listed: "getUserApiKey s u = Inr (Some k) \<Longrightarrow> k \<in> set (getAllUsersWithKeys s)"
proof -
  assume "getUserApiKey s u = Inr (Some k)"
  then have "k \<in> set (active_keys_of s u)"
    by (simp add: getUserApiKey_def latest_active_key_mem)
  then show ?thesis
    by (simp add: getAllUsersWithKeys_def set_order_created_desc active_keys_of_def)
qed

lemma set_checkUsageLimits:
  "set (checkUsageLimits s) = {a. \<exists>k \<in> set (getAllUsersWithKeys s). usage_alert k = Some a}"
  by (force simp: checkUsageLimits_def List.map_filter_def)

lemma usage_alert_limit: "usage_alert k = Some a \<Longrightarrow> monthly_limit k \<noteq> None"
  by (auto simp: usage_alert_def Let_def split: option.splits)

lemma usage_alert_user: "usage_alert k = Some a \<Longrightarrow> a_userId a = user_id k"
  by (auto simp: usage_alert_def Let_def split: option.splits if_splits)

lemma filter_alerts_of_user:
  "filter (\<lambda>a. a_userId a = u) (List.map_filter usage_alert ks) =
     List.map_filter usage_alert (filter (\<lambda>k. user_id k = u) ks)"
proof (induction ks)
  case Nil
  show ?case by (simp add: List.map_filter_simps)
next
  case (Cons k ks)
  show ?case
  proof (cases "usage_alert k")
    case None
    with Cons show ?thesis by (simp add: List.map_filter_simps)
  next
    case (Some a)
    with Cons usage_alert_user [OF Some] show ?thesis by (simp add: List.map_filter_simps)
  qed
qed

lemma filter_order_created_desc:
  "filter P (order_created_desc ks) = order_created_desc (filter P ks)"
  by (simp add: order_created_desc_def filter_sort flip: rev_filter)

lemma listed_keys_of_user:
  "filter (\<lambda>k. user_id k = u) (getAllUsersWithKeys s) = order_created_desc (active_keys_of s u)"
  by (simp add: getAllUsersWithKeys_def filter_order_created_desc active_keys_of_def conj_commute)

lemma alerts_of_user:
  "active_keys_of s u = [k] \<Longrightarrow>
     filter (\<lambda>a. a_userId a = u) (checkUsageLimits s) =
       (case usage_alert k of None \<Rightarrow> [] | Some a \<Rightarrow> [a])"
  by (simp add: checkUsageLimits_def filter_alerts_of_user listed_keys_of_user
      order_created_desc_single List.map_filter_simps split: option.splits)


lemma sample_lookup:
  "active_keys_of (sample_db u l c) u = [sample_key u l c]"
  "getUserApiKey (sample_db u l c) u = Inr (Some (sample_key u l c))"
  by (simp_all add: getUserApiKey_def latest_active_key_def active_keys_of_def
      order_created_desc_def sample_db_def sample_key_def)

lemma sample_key_fields:
  "monthly_limit (sample_key u l c) = l"
  "current_usage (sample_key u l c) = c"
  "user_id (sample_key u l c) = u"
  by (simp_all add: sample_key_def)

text \<open>
  C6. For a user whose active key has the monthly limit 10.00: at usage 8.5 the key is
  classified as warning (85%) and the scan of \<open>checkUsageLimits\<close> reports it; at usage 9.5
  it is classified as critical (95%) and reported; at usage 10.5 the limit check returns
  false. A key without limit is skipped. The alerts of a scan about a user with one
  active key are exactly the classification of that key, and every alert of a scan comes
  from an active key that has a limit.
\<close>

theorem usage_thresholds:
  "(getUserApiKey s u = Inr (Some k) \<and> monthly_limit k = Some 10 \<and> current_usage k = 17 / 2 \<longrightarrow>
      usage_alert k = Some \<lparr>a_type = warning, a_userId = user_id k, usage = 17 / 2, a_limit = 10,
                              percentage = to_double (85 / 100)\<rparr> \<and>
      \<lparr>a_type = warning, a_userId = user_id k, usage = 17 / 2, a_limit = 10,
        percentage = to_double (85 / 100)\<rparr> \<in> set (checkUsageLimits s)) \<and>
   (getUserApiKey s u = Inr (Some k) \<and> monthly_limit k = Some 10 \<and> current_usage k = 19 / 2 \<longrightarrow>
      usage_alert k = Some \<lparr>a_type = critical, a_userId = user_id k, usage = 19 / 2, a_limit = 10,
                              percentage = to_double (95 / 100)\<rparr> \<and>
      \<lparr>a_type = critical, a_userId = user_id k, usage = 19 / 2, a_limit = 10,
        percentage = to_double (95 / 100)\<rparr> \<in> set (checkUsageLimits s)) \<and>
   (getUserApiKey s u = Inr (Some k) \<and> monthly_limit k = Some 10 \<and> current_usage k = 21 / 2 \<longrightarrow>
      checkUserUsageLimit s u = Inr False) \<and>
   (monthly_limit k = None \<longrightarrow> usage_alert k = None) \<and>
   (active_keys_of s u = [k] \<longrightarrow>
      filter (\<lambda>a. a_userId a = u) (checkUsageLimits s) =
        (case usage_alert k of None \<Rightarrow> [] | Some a \<Rightarrow> [a])) \<and>
   (\<forall>a \<in> set (checkUsageLimits s). \<exists>k' \<in> set (getAllUsersWithKeys s).
       monthly_limit k' \<noteq> None \<and> usage_alert k' = Some a)"
proof -
  have w: "usage_alert k = Some \<lparr>a_type = warning, a_userId = user_id k, usage = 17 / 2,
              a_limit = 10, percentage = to_double (85 / 100)\<rparr>"
    if "monthly_limit k = Some 10" "current_usage k = 17 / 2"
    unfolding usage_alert_def that by (simp add: js_div_def double_facts)
  have c: "usage_alert k = Some \<lparr>a_type = critical, a_userId = user_id k, usage = 19 / 2,
              a_limit = 10, percentage = to_double (95 / 100)\<rparr>"
    if "monthly_limit k = Some 10" "current_usage k = 19 / 2"
    unfolding usage_alert_def that by (simp add: js_div_def double_facts)
  have m: "a \<in> set (checkUsageLimits s)"
    if "getUserApiKey s u = Inr (Some k)" "usage_alert k = Some a" for a
    using active_key_listed [OF that(1)] that(2) by (auto simp: set_checkUsageLimits)
  have x: "checkUserUsageLimit s u = Inr False"
    if "getUserApiKey s u = Inr (Some k)" "monthly_limit k = Some 10" "current_usage k = 21 / 2"
    using that by (simp add: checkUserUsageLimit_def check_usage_limit_def getUserApiKey_def)
  have n: "usage_alert k = None" if "monthly_limit k = None"
    using that by (simp add: usage_alert_def)
  have o: "\<forall>a \<in> set (checkUsageLimits s). \<exists>k' \<in> set (getAllUsersWithKeys s).
       monthly_limit k' \<noteq> None \<and> usage_alert k' = Some a"
  proof
    fix a assume "a \<in> set (checkUsageLimits s)"
    then obtain k' where k': "k' \<in> set (getAllUsersWithKeys s)" "usage_alert k' = Some a"
      by (auto simp: set_checkUsageLimits)
    with usage_alert_limit [OF k'(2)]
    show "\<exists>k' \<in> set (getAllUsersWithKeys s). monthly_limit k' \<noteq> None \<and> usage_alert k' = Some a"
      by blast
  qed
  from w c m x n o alerts_of_user [of s u k] show ?thesis by blast
qed

text \<open>
  C6 on stores with the single key of alice, limit 10.00, at usage 8.5, 9.5 and 10.5, and
  on a store whose only key has no limit.
\<close>

theorem usage_thresholds_witness:
  "checkUsageLimits (sample_db alice (Some 10) (17 / 2)) =
     [\<lparr>a_type = warning, a_userId = alice, usage = 17 / 2, a_limit = 10,
       percentage = to_double (85 / 100)\<rparr>] \<and>
   checkUsageLimits (sample_db alice (Some 10) (19 / 2)) =
     [\<lparr>a_type = critical, a_userId = alice, usage = 19 / 2, a_limit = 10,
       percentage = to_double (95 / 100)\<rparr>] \<and>
   checkUserUsageLimit (sample_db alice (Some 10) (21 / 2)) alice = Inr False \<and>
   getAllUsersWithKeys (sample_db alice None 100) = [sample_key alice None 100] \<and>
   checkUsageLimits (sample_db alice None 100) = []"
proof -
  have only: "filter (\<lambda>a. a_userId a = alice) (checkUsageLimits (sample_db alice l c)) =
      checkUsageLimits (sample_db alice l c)" for l c
    unfolding checkUsageLimits_def filter_alerts_of_user
    by (simp add: getAllUsersWithKeys_def order_created_desc_def sample_db_def sample_key_def)
  have listed: "getAllUsersWithKeys (sample_db alice None 100) = [sample_key alice None 100]"
    by (simp add: getAllUsersWithKeys_def order_created_desc_def sample_db_def sample_key_def)
  from usage_thresholds [of "sample_db alice (Some 10) (17 / 2)" alice
      "sample_key alice (Some 10) (17 / 2)"]
  have a: "checkUsageLimits (sample_db alice (Some 10) (17 / 2)) =
     [\<lparr>a_type = warning, a_userId = alice, usage = 17 / 2, a_limit = 10,
       percentage = to_double (85 / 100)\<rparr>]"
    by (simp add: sample_lookup sample_key_fields only)
  from usage_thresholds [of "sample_db alice (Some 10) (19 / 2)" alice
      "sample_key alice (Some 10) (19 / 2)"]
  have b: "checkUsageLimits (sample_db alice (Some 10) (19 / 2)) =
     [\<lparr>a_type = critical, a_userId = alice, usage = 19 / 2, a_limit = 10,
       percentage = to_double (95 / 100)\<rparr>]"
    by (simp add: sample_lookup sample_key_fields only)
  from usage_thresholds [of "sample_db alice (Some 10) (21 / 2)" alice
      "sample_key alice (Some 10) (21 / 2)"]
  have c: "checkUserUsageLimit (sample_db alice (Some 10) (21 / 2)) alice = Inr False"
    by (simp add: sample_lookup sample_key_fields)
  from usage_thresholds [of "sample_db alice None 100" alice "sample_key alice None 100"]
  have d: "checkUsageLimits (sample_db alice None 100) = []"
    by (simp add: sample_lookup sample_key_fields only)
  from a b c listed d show ?thesis by simp
qed

section \<open>Effects of the writes on the active keys\<close>

lemma set_inactive_simps:
  "user_id (set_inactive t u k) = user_id k"
  "status (set_inactive t u k) = (if user_id k = u \<and> status k = active then inactive else status k)"
  "monthly_limit (set_inactive t u k) = monthly_limit k"
  "current_usage (set_inactive t u k) = current_usage k"
  "row_id (set_inactive t u k) = row_id k"
  "openrouter_key_id (set_inactive t u k) = openrouter_key_id k"
  by (simp_all add: set_inactive_def)

lemma set_inactive_other:
  "user_id k \<noteq> u \<Longrightarrow> set_inactive t u k = k"
  "status k \<noteq> active \<Longrightarrow> set_inactive t u k = k"
  by (simp_all add: set_inactive_def)

lemma set_inactive_hit:
  "user_id k = u \<Longrightarrow> status k = active \<Longrightarrow>
     set_inactive t u k = k\<lparr>status := inactive, updated_at := t\<rparr>"
  by (simp add: set_inactive_def)

lemma filter_set_inactive:
  "filter (\<lambda>k. user_id k = v \<and> status k = active) (map (set_inactive t u) ks) =
     (if v = u then [] else filter (\<lambda>k. user_id k = v \<and> status k = active) ks)"
  by (induction ks) (simp_all add: set_inactive_simps set_inactive_other)

lemma active_after_deactivate:
  "active_keys_of (deactivated s u) v = (if v = u then [] else active_keys_of s v)"
  by (simp add: active_keys_of_def deactivated_def filter_set_inactive)

lemma active_after_insert:
  "active_keys_of (inserted s k) v =
     (if user_id k = v \<and> status k = active then active_keys_of s v @ [k] else active_keys_of s v)"
  by (simp add: active_keys_of_def inserted_def)

lemma rows_after_deactivate:
  "user_api_keys (deactivated s u) = map (set_inactive (clock s) u) (user_api_keys s)"
  "api_usage_logs (deactivated s u) = api_usage_logs s"
  "next_id (deactivated s u) = next_id s"
  "clock (deactivated s u) = Suc (clock s)"
  by (simp_all add: deactivated_def)

lemma rows_after_insert:
  "user_api_keys (inserted s k) = user_api_keys s @ [k]"
  "api_usage_logs (inserted s k) = api_usage_logs s"
  "next_id (inserted s k) = Suc (next_id s)"
  "clock (inserted s k) = Suc (clock s)"
  by (simp_all add: inserted_def)

lemma new_key_row_simps:
  "user_id (new_key_row today s u oid nm m) = u"
  "status (new_key_row today s u oid nm m) = active"
  "current_usage (new_key_row today s u oid nm m) = 0"
  "monthly_limit (new_key_row today s u oid nm m) = m"
  "openrouter_key_id (new_key_row today s u oid nm m) = oid"
  "key_name (new_key_row today s u oid nm m) = nm"
  "row_id (new_key_row today s u oid nm m) = next_id s"
  "created_at (new_key_row today s u oid nm m) = clock s"
  "usage_reset_date (new_key_row today s u oid nm m) = date_trunc_month today"
  by (simp_all add: new_key_row_def)

lemma deactivate_single:
  "active_keys_of s u = [k] \<Longrightarrow>
     deactivateUserApiKey s u = (Inr (set_inactive (clock s) u k), deactivated s u)"
  by (simp add: deactivateUserApiKey_def)

lemma deactivate_not_single:
  "length (active_keys_of s u) \<noteq> 1 \<Longrightarrow> deactivateUserApiKey s u = (Inl PGRST116, s)"
proof (cases "active_keys_of s u")
  case Nil
  then show ?thesis by (simp add: deactivateUserApiKey_def)
next
  case (Cons k ks)
  assume "length (active_keys_of s u) \<noteq> 1"
  with Cons obtain k' ks' where "ks = k' # ks'" by (cases ks) simp_all
  with Cons show ?thesis by (simp add: deactivateUserApiKey_def)
qed

lemma create_ok:
  "limit_column l = Inr m \<Longrightarrow> (\<forall>x. m = Some x \<longrightarrow> 0 < x) \<Longrightarrow>
     createUserApiKey today s u oid nm l =
       (Inr (new_key_row today s u oid nm m), inserted s (new_key_row today s u oid nm m))"
  by (cases m) (simp_all add: createUserApiKey_def Let_def)

lemma create_cases:
  "createUserApiKey today s u oid nm l = (r, s') \<Longrightarrow>
     (isl r \<and> s' = s) \<or>
     (\<exists>m. r = Inr (new_key_row today s u oid nm m) \<and>
          s' = inserted s (new_key_row today s u oid nm m))"
proof (cases "limit_column l")
  case (Inl e)
  assume "createUserApiKey today s u oid nm l = (r, s')"
  with Inl show ?thesis by (auto simp: createUserApiKey_def)
next
  case (Inr m)
  assume "createUserApiKey today s u oid nm l = (r, s')"
  with Inr show ?thesis
    by (cases "case m of None \<Rightarrow> False | Some x \<Rightarrow> x \<le> 0")
       (auto simp: createUserApiKey_def Let_def)
qed

section \<open>One active key per user\<close>

lemma unique_after_deactivate:
  "unique_active s \<Longrightarrow> unique_active (snd (deactivateUserApiKey s u))"
proof (cases "length (active_keys_of s u) = 1")
  case True
  assume a: "unique_active s"
  from True obtain k where "active_keys_of s u = [k]"
    by (cases "active_keys_of s u") simp_all
  with a show ?thesis
    by (simp add: deactivate_single unique_active_def active_after_deactivate)
next
  case False
  assume "unique_active s"
  with False show ?thesis by (simp add: deactivate_not_single)
qed

lemma unique_after_insert:
  assumes "unique_active s" "active_keys_of s u = []"
  shows "unique_active (snd (createUserApiKey today s u oid nm l))"
proof -
  obtain r s' where c: "createUserApiKey today s u oid nm l = (r, s')"
    by (cases "createUserApiKey today s u oid nm l")
  from create_cases [OF c] assms have "unique_active s'"
    by (auto simp: unique_active_def active_after_insert new_key_row_simps)
  with c show ?thesis by simp
qed

lemma create_user_state:
  "snd (create_user e today s b) = s \<or>
   (active_keys_of s (userId b) = [] \<and>
    (\<exists>oid nm l. snd (create_user e today s b) =
        snd (createUserApiKey today s (userId b) oid nm l)))"
proof (cases "createUserKeySchema_ok b")
  case False
  then show ?thesis by (simp add: create_user_def)
next
  case True
  show ?thesis
  proof (cases "latest_active_key s (userId b)")
    case (Some k)
    with True show ?thesis by (simp add: create_user_def getUserApiKey_def)
  next
    case None
    then have n: "active_keys_of s (userId b) = []"
      by (simp add: latest_active_key_None)
    show ?thesis
    proof (cases "createUserKey e (userId b) (final_limit e b)")
      case (Inl err)
      with True None show ?thesis by (simp add: create_user_def getUserApiKey_def)
    next
      case (Inr pk)
      obtain r s' where c: "createUserApiKey today s (userId b) (ok_id pk) (ok_name pk)
          (final_limit e b) = (r, s')"
        by (cases "createUserApiKey today s (userId b) (ok_id pk) (ok_name pk) (final_limit e b)")
      have "snd (create_user e today s b) = s'"
        using True None Inr c
        by (cases r) (simp_all add: create_user_def getUserApiKey_def)
      with c n show ?thesis by (metis snd_conv)
    qed
  qed
qed

lemma unique_after_create:
  assumes "unique_active s"
  shows "unique_active (snd (create_user e today s b))"
proof -
  from create_user_state [of e today s b]
  consider (same) "snd (create_user e today s b) = s"
    | (ins) oid nm l where "active_keys_of s (userId b) = []"
        "snd (create_user e today s b) = snd (createUserApiKey today s (userId b) oid nm l)"
    by blast
  then show ?thesis
  proof cases
    case same
    with assms show ?thesis by simp
  next
    case ins
    with unique_after_insert [OF assms ins(1)] show ?thesis by simp
  qed
qed

lemma rotate_none:
  "active_keys_of s u = [] \<Longrightarrow> rotateUserKey e today s u d = (Inl (NoActiveKey u), s)"
  by (simp add: rotateUserKey_def getUserApiKey_def latest_active_key_None [THEN iffD2])

lemma rotate_ambiguous:
  "1 < length (active_keys_of s u) \<Longrightarrow> rotateUserKey e today s u d = (Inl PGRST116, s)"
proof -
  assume a: "1 < length (active_keys_of s u)"
  then have "active_keys_of s u \<noteq> []" by auto
  then obtain k where "latest_active_key s u = Some k"
    using latest_active_key_None [of s u] by (cases "latest_active_key s u") simp_all
  moreover from a have "deactivateUserApiKey s u = (Inl PGRST116, s)"
    by (simp add: deactivate_not_single)
  ultimately show ?thesis
    by (simp add: rotateUserKey_def getUserApiKey_def)
qed

lemma rotate_provider_failure:
  "active_keys_of s u = [k] \<Longrightarrow>
   createUserKey e u (limit_of_column (monthly_limit k)) = Inl err \<Longrightarrow>
     rotateUserKey e today s u d = (Inl err, deactivated s u)"
  by (simp add: rotateUserKey_def getUserApiKey_def latest_active_key_single deactivate_single)

lemma rotate_stored:
  "active_keys_of s u = [k] \<Longrightarrow>
   createUserKey e u (limit_of_column (monthly_limit k)) = Inr pk \<Longrightarrow>
   createUserApiKey today (deactivated s u) u (ok_id pk) (ok_name pk)
       (limit_of_column (monthly_limit k)) = (r, s2) \<Longrightarrow>
     rotateUserKey e today s u d =
       (case r of Inl err \<Rightarrow> (Inl err, s2) | Inr new \<Rightarrow> (Inr (k, new), s2))"
  by (cases r; cases d; cases "deleteKey e (openrouter_key_id k)")
     (simp_all add: rotateUserKey_def getUserApiKey_def latest_active_key_single
        deactivate_single)

lemma rotate_success:
  assumes "active_keys_of s u = [k]"
    and "createUserKey e u (limit_of_column (monthly_limit k)) = Inr pk"
    and "limit_column (limit_of_column (monthly_limit k)) = Inr m"
    and "\<forall>x. m = Some x \<longrightarrow> 0 < x"
  shows "rotateUserKey e today s u d =
       (Inr (k, new_key_row today (deactivated s u) u (ok_id pk) (ok_name pk) m),
        inserted (deactivated s u)
          (new_key_row today (deactivated s u) u (ok_id pk) (ok_name pk) m))"
  using rotate_stored [OF assms(1,2) create_ok [OF assms(3,4)]] by simp

lemma rotate_state:
  "snd (rotateUserKey e today s u d) = s \<or>
   snd (rotateUserKey e today s u d) = deactivated s u \<or>
   (\<exists>oid nm m. snd (rotateUserKey e today s u d) =
       inserted (deactivated s u) (new_key_row today (deactivated s u) u oid nm m))"
proof (cases "active_keys_of s u")
  case Nil
  then show ?thesis by (simp add: rotate_none)
next
  case (Cons k ks)
  show ?thesis
  proof (cases ks)
    case (Cons k' ks')
    with \<open>active_keys_of s u = k # ks\<close> show ?thesis by (simp add: rotate_ambiguous)
  next
    case Nil
    with \<open>active_keys_of s u = k # ks\<close> have one: "active_keys_of s u = [k]" by simp
    show ?thesis
    proof (cases "createUserKey e u (limit_of_column (monthly_limit k))")
      case (Inl err)
      with one show ?thesis by (simp add: rotate_provider_failure)
    next
      case (Inr pk)
      obtain r s2 where c: "createUserApiKey today (deactivated s u) u (ok_id pk) (ok_name pk)
          (limit_of_column (monthly_limit k)) = (r, s2)"
        by (cases "createUserApiKey today (deactivated s u) u (ok_id pk) (ok_name pk)
          (limit_of_column (monthly_limit k))")
      have "snd (rotateUserKey e today s u d) = s2"
        using rotate_stored [OF one Inr c, of d] by (cases r) simp_all
      with create_cases [OF c] show ?thesis by auto
    qed
  qed
qed

lemma unique_after_rotate:
  assumes "unique_active s"
  shows "unique_active (snd (rotateUserKey e today s u d))"
proof -
  have d: "unique_active (deactivated s u)"
    using assms by (simp add: unique_active_def active_after_deactivate)
  have i: "unique_active (inserted (deactivated s u)
      (new_key_row today (deactivated s u) u oid nm m))" for oid nm m
    using assms
    by (simp add: unique_active_def active_after_insert active_after_deactivate
        new_key_row_simps)
  from rotate_state [of e today s u d] assms d i show ?thesis by auto
qed

lemma unique_after_step: "unique_active s \<Longrightarrow> unique_active (step s r)"
  by (cases r) (simp_all add: unique_after_create unique_after_rotate unique_after_deactivate)

lemma unique_after_run: "unique_active s \<Longrightarrow> unique_active (run s rs)"
  unfolding run_def by (induction rs arbitrary: s) (simp_all add: unique_after_step)

lemma rotate_result:
  assumes "rotateUserKey e today s u d = (Inr (old, new), s')"
  shows "active_keys_of s u = [old] \<and> s' = inserted (deactivated s u) new \<and>
         user_id new = u \<and> status new = active"
proof (cases "active_keys_of s u")
  case Nil
  with assms show ?thesis by (simp add: rotate_none)
next
  case (Cons k ks)
  show ?thesis
  proof (cases ks)
    case (Cons k' ks')
    with \<open>active_keys_of s u = k # ks\<close> assms show ?thesis by (simp add: rotate_ambiguous)
  next
    case Nil
    with \<open>active_keys_of s u = k # ks\<close> have one: "active_keys_of s u = [k]" by simp
    show ?thesis
    proof (cases "createUserKey e u (limit_of_column (monthly_limit k))")
      case (Inl err)
      with one assms show ?thesis by (simp add: rotate_provider_failure)
    next
      case (Inr pk)
      obtain r s2 where c: "createUserApiKey today (deactivated s u) u (ok_id pk) (ok_name pk)
          (limit_of_column (monthly_limit k)) = (r, s2)"
        by (cases "createUserApiKey today (deactivated s u) u (ok_id pk) (ok_name pk)
          (limit_of_column (monthly_limit k))")
      from rotate_stored [OF one Inr c, of d] assms
      have r: "r = Inr new" "old = k" "s' = s2"
        by (cases r; simp)+
      from create_cases [OF c] r obtain m where
        "new = new_key_row today (deactivated s u) u (ok_id pk) (ok_name pk) m"
        "s2 = inserted (deactivated s u) new"
        by auto
      with r one show ?thesis by (simp add: new_key_row_simps)
    qed
  qed
qed

text \<open>
  C1. A store in which every user has at most one active record keeps that property after
  any sequence of create, rotate and deactivate requests, whatever the provider and the
  subscriptions answer; in particular every store reached from the empty one has it.
  A valid create request for a user with an active record is answered with a Conflict
  that carries the record, and changes nothing. A rotation that succeeds has first
  deactivated the single active record of the user and then inserted the new one, which
  is the only active record of the user afterwards.
\<close>

theorem one_active_key_per_user:
  "(unique_active s \<longrightarrow> unique_active (run s rs)) \<and>
   unique_active (run empty_db rs) \<and>
   (createUserKeySchema_ok b \<and> getUserApiKey s (userId b) = Inr (Some k) \<longrightarrow>
      create_user e today s b = (Conflict k, s)) \<and>
   (rotateUserKey e today s u d = (Inr (old, new), s') \<longrightarrow>
      active_keys_of s u = [old] \<and> active_keys_of (deactivated s u) u = [] \<and>
      s' = inserted (deactivated s u) new \<and> active_keys_of s' u = [new] \<and>
      set_inactive (clock s) u old \<in> set (user_api_keys s') \<and>
      status (set_inactive (clock s) u old) = inactive)"
proof -
  have inv: "unique_active s \<longrightarrow> unique_active (run s rs)"
    by (simp add: unique_after_run)
  have "unique_active empty_db"
    by (simp add: unique_active_def active_keys_of_def empty_db_def)
  then have emp: "unique_active (run empty_db rs)"
    by (rule unique_after_run)
  have conf: "create_user e today s b = (Conflict k, s)"
    if "createUserKeySchema_ok b" "getUserApiKey s (userId b) = Inr (Some k)"
    using that by (simp add: create_user_def)
  have rot: "active_keys_of s u = [old] \<and> active_keys_of (deactivated s u) u = [] \<and>
      s' = inserted (deactivated s u) new \<and> active_keys_of s' u = [new] \<and>
      set_inactive (clock s) u old \<in> set (user_api_keys s') \<and>
      status (set_inactive (clock s) u old) = inactive"
    if r: "rotateUserKey e today s u d = (Inr (old, new), s')"
  proof -
    from rotate_result [OF r]
    have one: "active_keys_of s u = [old]" and s': "s' = inserted (deactivated s u) new"
      and n: "user_id new = u" "status new = active"
      by simp_all
    from one have "old \<in> set (active_keys_of s u)" by simp
    then have o: "old \<in> set (user_api_keys s)" "user_id old = u" "status old = active"
      by (simp_all add: active_keys_of_def)
    then have mem: "set_inactive (clock s) u old \<in> set (user_api_keys s')"
      by (simp add: s' rows_after_insert rows_after_deactivate)
    from one s' n o mem show ?thesis
      by (simp add: active_after_insert active_after_deactivate set_inactive_simps)
  qed
  from inv emp conf rot show ?thesis by blast
qed

lemma sample_key_status: "status (sample_key u l c) = active"
  by (simp add: sample_key_def)

lemma limit_column_50: "limit_column (Num 50) = Inr (Some 50)"
  by (simp add: limit_column_def decimal_def round_half_away_def floor_rat_numeral)

lemma provider_up_issues:
  "createUserKey provider_up u l =
     Inr (issue_key \<lparr>name = ''Formul8 User '' @ u,
                      limit = (if truthy l then Some l else None),
                      label = Some (''user-'' @ u)\<rparr>)"
  by (simp add: createUserKey_def createKey_def provider_up_def)

text \<open>
  C1 on the empty store and on a store with one active key of alice: a run of six requests
  leaves alice and bob with one active record each, a second create for alice is a
  Conflict, and a rotation ends with the new record as the only active one.
\<close>

theorem one_active_key_per_user_witness:
  "unique_active empty_db \<and>
   unique_active (run empty_db
     [CreateKeyForUser provider_up (2026, 11, 2) \<lparr>userId = alice, monthlyLimit = Some 50\<rparr>,
      CreateKeyForUser provider_up (2026, 11, 2) \<lparr>userId = alice, monthlyLimit = None\<rparr>,
      RotateKeyForUser provider_up (2026, 11, 3) alice False,
      DeactivateKeyForUser alice,
      CreateKeyForUser provider_up (2026, 11, 4) \<lparr>userId = alice, monthlyLimit = None\<rparr>,
      CreateKeyForUser provider_up (2026, 11, 4) \<lparr>userId = bob, monthlyLimit = None\<rparr>]) \<and>
   create_user provider_up (2026, 11, 2) (sample_db alice (Some 50) 12)
       \<lparr>userId = alice, monthlyLimit = None\<rparr> =
     (Conflict (sample_key alice (Some 50) 12), sample_db alice (Some 50) 12) \<and>
   map status (user_api_keys
       (snd (rotateUserKey provider_up (2026, 11, 2) (sample_db alice (Some 50) 12) alice False))) =
     [inactive, active] \<and>
   map status (active_keys_of
       (snd (rotateUserKey provider_up (2026, 11, 2) (sample_db alice (Some 50) 12) alice False))
       alice) = [active]"
proof -
  let ?s = "sample_db alice (Some 50) 12"
  let ?k = "sample_key alice (Some 50) 12"
  let ?b = "\<lparr>userId = alice, monthlyLimit = None\<rparr>"
  let ?pk = "issue_key \<lparr>name = ''Formul8 User '' @ alice, limit = Some (Num 50),
                         label = Some (''user-'' @ alice)\<rparr>"
  let ?n = "new_key_row (2026, 11, 2) (deactivated ?s alice) alice (ok_id ?pk) (ok_name ?pk)
              (Some 50)"
  let ?s' = "inserted (deactivated ?s alice) ?n"
  let ?rs = "[CreateKeyForUser provider_up (2026, 11, 2) \<lparr>userId = alice, monthlyLimit = Some 50\<rparr>,
      CreateKeyForUser provider_up (2026, 11, 2) \<lparr>userId = alice, monthlyLimit = None\<rparr>,
      RotateKeyForUser provider_up (2026, 11, 3) alice False,
      DeactivateKeyForUser alice,
      CreateKeyForUser provider_up (2026, 11, 4) \<lparr>userId = alice, monthlyLimit = None\<rparr>,
      CreateKeyForUser provider_up (2026, 11, 4) \<lparr>userId = bob, monthlyLimit = None\<rparr>]"
  have e: "unique_active empty_db"
    by (simp add: unique_active_def active_keys_of_def empty_db_def)
  have ok: "createUserKeySchema_ok ?b"
    by (simp add: createUserKeySchema_ok_def)
  have g: "getUserApiKey ?s (userId ?b) = Inr (Some ?k)"
    by (simp add: sample_lookup)
  have r: "rotateUserKey provider_up (2026, 11, 2) ?s alice False = (Inr (?k, ?n), ?s')"
    by (rule rotate_success [OF sample_lookup(1)])
       (simp_all add: sample_key_fields limit_of_column_def provider_up_issues truthy_def
          limit_column_50)
  note t1 = one_active_key_per_user [where s = empty_db and rs = ?rs]
  note t2 = one_active_key_per_user [where s = ?s and b = ?b and k = ?k and e = provider_up
      and today = "(2026, 11, 2)" and u = alice and d = False and old = ?k and new = ?n
      and s' = ?s']
  from t1 e have a: "unique_active (run empty_db ?rs)"
    by blast
  from t2 ok g have c: "create_user provider_up (2026, 11, 2) ?s ?b = (Conflict ?k, ?s)"
    by blast
  from t2 r have n: "active_keys_of ?s' alice = [?n]"
    and m: "set_inactive (clock ?s) alice ?k \<in> set (user_api_keys ?s')"
    by blast+
  have st: "map status (user_api_keys ?s') = [inactive, active]"
    by (simp add: rows_after_insert rows_after_deactivate new_key_row_simps sample_db_def
        set_inactive_simps sample_key_fields sample_key_status)
  have x: "map status (user_api_keys (snd (rotateUserKey provider_up (2026, 11, 2) ?s alice False)))
      = [inactive, active]"
    by (simp only: r snd_conv st)
  have y: "map status (active_keys_of
       (snd (rotateUserKey provider_up (2026, 11, 2) ?s alice False)) alice) = [active]"
    by (simp only: r snd_conv n) (simp add: new_key_row_simps)
  from e a c x y show ?thesis by blast
qed

section \<open>Rotation of one key\<close>

lemma set_inactive_member:
  "k \<in> set (user_api_keys s) \<Longrightarrow>
     set_inactive (clock s) u k \<in> set (user_api_keys (deactivated s u))"
  by (simp add: rows_after_deactivate)

lemma inserted_member:
  "k \<in> set (user_api_keys s) \<Longrightarrow> k \<in> set (user_api_keys (inserted s n))"
  by (simp add: rows_after_insert)

lemma active_key_member: "active_keys_of s u = [k] \<Longrightarrow>
    k \<in> set (user_api_keys s) \<and> user_id k = u \<and> status k = active"
proof -
  assume "active_keys_of s u = [k]"
  then have "k \<in> set (active_keys_of s u)" by simp
  then show ?thesis by (simp add: active_keys_of_def)
qed

text \<open>
  C5. For a user whose active key has the monthly limit 50.00 and the usage 12.00, and a
  provider that issues the new key, \<open>rotateUserKey\<close> with \<open>deleteOld = false\<close> returns the
  old record and a new active record with the limit 50.00 and the usage 0, which is the
  record that the lookup of the user finds afterwards. The table afterwards is the old
  table with the user's record set to inactive, followed by the new record: the old
  record is still there, inactive, with its limit 50.00 and its usage 12.00.
\<close>

theorem rotate_carries_limit:
  "active_keys_of s u = [k] \<Longrightarrow> monthly_limit k = Some 50 \<Longrightarrow> current_usage k = 12 \<Longrightarrow>
   createUserKey e u (Num 50) = Inr pk \<Longrightarrow>
     (\<exists>new s'. rotateUserKey e today s u False = (Inr (k, new), s') \<and>
        user_id new = u \<and> status new = active \<and>
        monthly_limit new = Some 50 \<and> current_usage new = 0 \<and>
        openrouter_key_id new = ok_id pk \<and>
        getUserApiKey s' u = Inr (Some new) \<and>
        user_api_keys s' = map (set_inactive (clock s) u) (user_api_keys s) @ [new] \<and>
        k\<lparr>status := inactive, updated_at := clock s\<rparr> \<in> set (user_api_keys s') \<and>
        monthly_limit (k\<lparr>status := inactive, updated_at := clock s\<rparr>) = Some 50 \<and>
        current_usage (k\<lparr>status := inactive, updated_at := clock s\<rparr>) = 12 \<and>
        api_usage_logs s' = api_usage_logs s)"
proof -
  assume one: "active_keys_of s u = [k]" and l: "monthly_limit k = Some 50"
    and c: "current_usage k = 12" and p: "createUserKey e u (Num 50) = Inr pk"
  let ?n = "new_key_row today (deactivated s u) u (ok_id pk) (ok_name pk) (Some 50)"
  let ?s' = "inserted (deactivated s u) ?n"
  have r: "rotateUserKey e today s u False = (Inr (k, ?n), ?s')"
    by (rule rotate_success [OF one]) (simp_all add: l limit_of_column_def p limit_column_50)
  from active_key_member [OF one]
  have k: "k \<in> set (user_api_keys s)" "user_id k = u" "status k = active"
    by simp_all
  have a: "active_keys_of ?s' u = [?n]"
    by (simp add: active_after_insert active_after_deactivate new_key_row_simps)
  have g: "getUserApiKey ?s' u = Inr (Some ?n)"
    by (simp add: getUserApiKey_def latest_active_key_single [OF a])
  have rows: "user_api_keys ?s' = map (set_inactive (clock s) u) (user_api_keys s) @ [?n]"
    by (simp add: rows_after_insert rows_after_deactivate)
  have old: "k\<lparr>status := inactive, updated_at := clock s\<rparr> \<in> set (user_api_keys ?s')"
    using inserted_member [OF set_inactive_member [OF k(1), of u], of ?n]
    by (simp add: set_inactive_hit [OF k(2,3)])
  have logs: "api_usage_logs ?s' = api_usage_logs s"
    by (simp add: rows_after_insert rows_after_deactivate)
  from r g rows old logs l c show ?thesis
    by (simp add: new_key_row_simps)
qed

text \<open>
  C5 on the store with the single key of alice, limit 50.00 and usage 12.00: after the
  rotation the table holds the old record, inactive with limit 50.00 and usage 12.00, and
  the new one, active with limit 50.00 and usage 0.
\<close>

theorem rotate_carries_limit_witness:
  "active_keys_of (sample_db alice (Some 50) 12) alice = [sample_key alice (Some 50) 12] \<and>
   monthly_limit (sample_key alice (Some 50) 12) = Some 50 \<and>
   current_usage (sample_key alice (Some 50) 12) = 12 \<and>
   isl (createUserKey provider_up alice (Num 50)) = False \<and>
   map (\<lambda>k. (status k, monthly_limit k, current_usage k))
     (user_api_keys (snd (rotateUserKey provider_up (2026, 11, 2)
        (sample_db alice (Some 50) 12) alice False))) =
     [(inactive, Some 50, 12), (active, Some 50, 0)]"
proof -
  let ?s = "sample_db alice (Some 50) 12"
  let ?k = "sample_key alice (Some 50) 12"
  have p: "createUserKey provider_up alice (Num 50) =
      Inr (issue_key \<lparr>name = ''Formul8 User '' @ alice, limit = Some (Num 50),
                       label = Some (''user-'' @ alice)\<rparr>)"
    by (simp add: provider_up_issues truthy_def)
  from rotate_carries_limit [OF sample_lookup(1) sample_key_fields(1) sample_key_fields(2) p,
      of "(2026, 11, 2)"]
  obtain new s' where r: "rotateUserKey provider_up (2026, 11, 2) ?s alice False = (Inr (?k, new), s')"
    and n: "status new = active" "monthly_limit new = Some 50" "current_usage new = 0"
    and rows: "user_api_keys s' = map (set_inactive (clock ?s) alice) (user_api_keys ?s) @ [new]"
    by blast
  have "map (\<lambda>k. (status k, monthly_limit k, current_usage k)) (user_api_keys s') =
     [(inactive, Some 50, 12), (active, Some 50, 0)]"
    by (simp add: rows n sample_db_def set_inactive_simps sample_key_fields sample_key_status)
  with r p sample_lookup(1) [of alice "Some 50" 12] show ?thesis
    by (simp add: sample_key_fields)
qed

section \<open>Rotation of all keys\<close>

lemma order_created_desc_length: "length (order_created_desc ks) = length ks"
  by (simp add: order_created_desc_def)

lemma order_created_desc_eq_single: "order_created_desc ks = [k] \<Longrightarrow> ks = [k]"
proof -
  assume a: "order_created_desc ks = [k]"
  then have "length ks = 1"
    using order_created_desc_length [of ks] by simp
  then obtain x where "ks = [x]"
    by (cases ks) simp_all
  with a show ?thesis by (simp add: order_created_desc_single)
qed

lemma stored_limit_column:
  "stored_limit l \<Longrightarrow> limit_column (limit_of_column l) = Inr l"
  "stored_limit l \<Longrightarrow> \<forall>x. l = Some x \<longrightarrow> 0 < x"
  by (cases l; simp add: stored_limit_def limit_column_def limit_of_column_def)+

lemma rotate_success_stored:
  assumes "active_keys_of s u = [k]"
    and "createUserKey e u (limit_of_column (monthly_limit k)) = Inr pk"
    and "stored_limit (monthly_limit k)"
  shows "rotateUserKey e today s u d =
       (Inr (k, new_key_row today (deactivated s u) u (ok_id pk) (ok_name pk) (monthly_limit k)),
        inserted (deactivated s u)
          (new_key_row today (deactivated s u) u (ok_id pk) (ok_name pk) (monthly_limit k)))"
  using rotate_success [OF assms(1,2) stored_limit_column [OF assms(3)]] .

lemma rotate_three:
  fixes today :: date
  assumes listed: "getAllUsersWithKeys s = [k1, k2, k3]"
    and dist: "distinct [user_id k1, user_id k2, user_id k3]"
    and l1: "stored_limit (monthly_limit k1)" and l3: "stored_limit (monthly_limit k3)"
    and p1: "createUserKey e (user_id k1) (limit_of_column (monthly_limit k1)) = Inr pk1"
    and p2: "createUserKey e (user_id k2) (limit_of_column (monthly_limit k2)) = Inl err"
    and p3: "createUserKey e (user_id k3) (limit_of_column (monthly_limit k3)) = Inr pk3"
  defines "n1 \<equiv> new_key_row today (deactivated s (user_id k1)) (user_id k1) (ok_id pk1)
                 (ok_name pk1) (monthly_limit k1)"
  defines "s1 \<equiv> inserted (deactivated s (user_id k1)) n1"
  defines "s2 \<equiv> deactivated s1 (user_id k2)"
  defines "n3 \<equiv> new_key_row today (deactivated s2 (user_id k3)) (user_id k3) (ok_id pk3)
                 (ok_name pk3) (monthly_limit k3)"
  defines "s3 \<equiv> inserted (deactivated s2 (user_id k3)) n3"
  shows "rotateAllUserKeys e today s =
           ([\<lparr>rr_userId = user_id k1, success = True, rr_error = None\<rparr>,
             \<lparr>rr_userId = user_id k2, success = False, rr_error = Some err\<rparr>,
             \<lparr>rr_userId = user_id k3, success = True, rr_error = None\<rparr>], s3)"
    and "active_keys_of s3 (user_id k1) = [n1]"
    and "active_keys_of s3 (user_id k2) = []"
    and "active_keys_of s3 (user_id k3) = [n3]"
    and "k2\<lparr>status := inactive, updated_at := Suc (Suc (clock s))\<rparr> \<in> set (user_api_keys s3)"
    and "row_id n1 = next_id s" and "row_id n3 = Suc (next_id s)"
proof -
  from dist have ne: "user_id k1 \<noteq> user_id k2" "user_id k2 \<noteq> user_id k1"
    "user_id k1 \<noteq> user_id k3" "user_id k3 \<noteq> user_id k1"
    "user_id k2 \<noteq> user_id k3" "user_id k3 \<noteq> user_id k2"
    by auto
  have of_user: "order_created_desc (active_keys_of s u) =
      filter (\<lambda>k. user_id k = u) [k1, k2, k3]" for u
    using listed_keys_of_user [of u s] by (simp add: listed)
  have a1: "active_keys_of s (user_id k1) = [k1]"
    by (rule order_created_desc_eq_single) (simp add: of_user ne)
  have a2: "active_keys_of s (user_id k2) = [k2]"
    by (rule order_created_desc_eq_single) (simp add: of_user ne)
  have a3: "active_keys_of s (user_id k3) = [k3]"
    by (rule order_created_desc_eq_single) (simp add: of_user ne)
  have r1: "rotateUserKey e today s (user_id k1) False = (Inr (k1, n1), s1)"
    unfolding n1_def s1_def by (rule rotate_success_stored [OF a1 p1 l1])
  have b2: "active_keys_of s1 (user_id k2) = [k2]"
    using ne
    by (simp add: s1_def n1_def active_after_insert active_after_deactivate new_key_row_simps a2)
  have r2: "rotateUserKey e today s1 (user_id k2) False = (Inl err, s2)"
    unfolding s2_def by (rule rotate_provider_failure [OF b2 p2])
  have b3: "active_keys_of s2 (user_id k3) = [k3]"
    using ne
    by (simp add: s2_def s1_def n1_def active_after_insert active_after_deactivate
        new_key_row_simps a3)
  have r3: "rotateUserKey e today s2 (user_id k3) False = (Inr (k3, n3), s3)"
    unfolding n3_def s3_def by (rule rotate_success_stored [OF b3 p3 l3])
  show "rotateAllUserKeys e today s =
           ([\<lparr>rr_userId = user_id k1, success = True, rr_error = None\<rparr>,
             \<lparr>rr_userId = user_id k2, success = False, rr_error = Some err\<rparr>,
             \<lparr>rr_userId = user_id k3, success = True, rr_error = None\<rparr>], s3)"
    by (simp add: rotateAllUserKeys_def listed r1 r2 r3)
  show "active_keys_of s3 (user_id k1) = [n1]"
    using ne
    by (simp add: s3_def s2_def s1_def active_after_insert active_after_deactivate
        new_key_row_simps n1_def n3_def)
  show "active_keys_of s3 (user_id k2) = []"
    using ne
    by (simp add: s3_def s2_def active_after_insert active_after_deactivate
        new_key_row_simps n3_def)
  show "active_keys_of s3 (user_id k3) = [n3]"
    using ne
    by (simp add: s3_def active_after_insert active_after_deactivate new_key_row_simps n3_def)
  from active_key_member [OF a2]
  have k2: "k2 \<in> set (user_api_keys s)" "status k2 = active" by simp_all
  have "k2 \<in> set (user_api_keys s1)"
    using inserted_member [OF set_inactive_member [OF k2(1), of "user_id k1"], of n1]
    by (simp add: s1_def set_inactive_other ne)
  then have "set_inactive (clock s1) (user_id k2) k2 \<in> set (user_api_keys s2)"
    unfolding s2_def by (rule set_inactive_member)
  moreover have "clock s1 = Suc (Suc (clock s))"
    by (simp add: s1_def rows_after_insert rows_after_deactivate)
  ultimately have "k2\<lparr>status := inactive, updated_at := Suc (Suc (clock s))\<rparr>
      \<in> set (user_api_keys s2)"
    by (simp add: set_inactive_hit [OF refl k2(2)])
  from inserted_member [OF set_inactive_member [OF this, of "user_id k3"], of n3]
  show "k2\<lparr>status := inactive, updated_at := Suc (Suc (clock s))\<rparr> \<in> set (user_api_keys s3)"
    by (simp add: s3_def set_inactive_other ne)
  show "row_id n1 = next_id s"
    by (simp add: n1_def new_key_row_simps rows_after_deactivate)
  show "row_id n3 = Suc (next_id s)"
    by (simp add: n3_def s2_def s1_def new_key_row_simps rows_after_deactivate rows_after_insert)
qed


lemma three_db_listed:
  "getAllUsersWithKeys three_db =
     [(sample_key carol None 7)\<lparr>row_id := 2, created_at := 2\<rparr>,
      (sample_key bob (Some 10) 3)\<lparr>row_id := 1, created_at := 1\<rparr>,
      (sample_key alice (Some 50) 12)\<lparr>row_id := 0, created_at := 0\<rparr>]"
  by (simp add: getAllUsersWithKeys_def order_created_desc_def three_db_def sample_key_def)

lemma three_db_users:
  "distinct [user_id ((sample_key carol None 7)\<lparr>row_id := 2, created_at := 2\<rparr>),
             user_id ((sample_key bob (Some 10) 3)\<lparr>row_id := 1, created_at := 1\<rparr>),
             user_id ((sample_key alice (Some 50) 12)\<lparr>row_id := 0, created_at := 0\<rparr>)]"
  by (simp add: sample_key_def alice_def bob_def carol_def)

lemma three_db_limits:
  "stored_limit (monthly_limit ((sample_key carol None 7)\<lparr>row_id := 2, created_at := 2\<rparr>))"
  "stored_limit (monthly_limit ((sample_key alice (Some 50) 12)\<lparr>row_id := 0, created_at := 0\<rparr>))"
  by (simp_all add: sample_key_def stored_limit_def decimal_def round_half_away_def
      floor_rat_numeral)

lemma provider_refusing_bob:
  "createUserKey (provider_refusing bob)
       (user_id ((sample_key carol None 7)\<lparr>row_id := 2, created_at := 2\<rparr>))
       (limit_of_column (monthly_limit ((sample_key carol None 7)\<lparr>row_id := 2, created_at := 2\<rparr>))) =
     Inr (issue_key \<lparr>name = ''Formul8 User '' @ carol, limit = None,
                      label = Some (''user-'' @ carol)\<rparr>)"
  "createUserKey (provider_refusing bob)
       (user_id ((sample_key bob (Some 10) 3)\<lparr>row_id := 1, created_at := 1\<rparr>))
       (limit_of_column (monthly_limit ((sample_key bob (Some 10) 3)\<lparr>row_id := 1, created_at := 1\<rparr>))) =
     Inl (HttpError ''HTTP 500'')"
  "createUserKey (provider_refusing bob)
       (user_id ((sample_key alice (Some 50) 12)\<lparr>row_id := 0, created_at := 0\<rparr>))
       (limit_of_column (monthly_limit ((sample_key alice (Some 50) 12)\<lparr>row_id := 0, created_at := 0\<rparr>))) =
     Inr (issue_key \<lparr>name = ''Formul8 User '' @ alice, limit = Some (Num 50),
                      label = Some (''user-'' @ alice)\<rparr>)"
  by (simp_all add: createUserKey_def createKey_def provider_refusing_def sample_key_def
      limit_of_column_def truthy_def alice_def bob_def carol_def)

lemma three_db_bob:
  "getUserApiKey three_db bob =
     Inr (Some ((sample_key bob (Some 10) 3)\<lparr>row_id := 1, created_at := 1\<rparr>))"
  by (simp add: getUserApiKey_def latest_active_key_def active_keys_of_def
      order_created_desc_def three_db_def sample_key_def alice_def bob_def carol_def)

text \<open>
  C3, as stated, fails: on a store with the users carol, bob and alice and a provider that
  refuses bob's key only, the manifest is success, failure, success, but bob, who had an
  active key before, has none afterwards.
\<close>

theorem failed_rotation_loses_active_key:
  "map rr_userId (fst (rotateAllUserKeys (provider_refusing bob) (2026, 11, 1) three_db)) =
     [carol, bob, alice] \<and>
   map success (fst (rotateAllUserKeys (provider_refusing bob) (2026, 11, 1) three_db)) =
     [True, False, True] \<and>
   getUserApiKey three_db bob =
     Inr (Some ((sample_key bob (Some 10) 3)\<lparr>row_id := 1, created_at := 1\<rparr>)) \<and>
   getUserApiKey (snd (rotateAllUserKeys (provider_refusing bob) (2026, 11, 1) three_db)) bob =
     Inr None"
proof -
  note r = rotate_three [OF three_db_listed three_db_users three_db_limits provider_refusing_bob,
      of "(2026, 11, 1)"]
  have ids: "map rr_userId (fst (rotateAllUserKeys (provider_refusing bob) (2026, 11, 1) three_db)) =
     [carol, bob, alice]"
    unfolding r(1) fst_conv by (simp add: sample_key_def)
  have suc: "map success (fst (rotateAllUserKeys (provider_refusing bob) (2026, 11, 1) three_db)) =
     [True, False, True]"
    unfolding r(1) fst_conv by simp
  have none: "getUserApiKey (snd (rotateAllUserKeys (provider_refusing bob) (2026, 11, 1) three_db))
      bob = Inr None"
    unfolding r(1) snd_conv getUserApiKey_def using r(3)
    by (simp add: latest_active_key_None sample_key_def)
  from ids suc three_db_bob none show ?thesis by blast
qed

text \<open>
  C3, amended. When \<open>rotateAllUserKeys\<close> finds the active keys of three users and the
  provider refuses the new key of the second only, the result is the manifest success,
  failure, success in the order of the scan. The first and the third user end up with a
  new active record (inserted by this run, with the provider's key, the limit of the old
  record and the usage 0). The second user ends up without an active record: its record
  was set to inactive before the provider was asked, and is otherwise as before.
\<close>

theorem rotate_all_partial_failure:
  "getAllUsersWithKeys s = [k1, k2, k3] \<Longrightarrow>
   distinct [user_id k1, user_id k2, user_id k3] \<Longrightarrow>
   stored_limit (monthly_limit k1) \<Longrightarrow> stored_limit (monthly_limit k3) \<Longrightarrow>
   createUserKey e (user_id k1) (limit_of_column (monthly_limit k1)) = Inr pk1 \<Longrightarrow>
   createUserKey e (user_id k2) (limit_of_column (monthly_limit k2)) = Inl err \<Longrightarrow>
   createUserKey e (user_id k3) (limit_of_column (monthly_limit k3)) = Inr pk3 \<Longrightarrow>
     (\<exists>n1 n3 s'.
        rotateAllUserKeys e today s =
          ([\<lparr>rr_userId = user_id k1, success = True, rr_error = None\<rparr>,
            \<lparr>rr_userId = user_id k2, success = False, rr_error = Some err\<rparr>,
            \<lparr>rr_userId = user_id k3, success = True, rr_error = None\<rparr>], s') \<and>
        getUserApiKey s' (user_id k1) = Inr (Some n1) \<and> status n1 = active \<and>
        row_id n1 = next_id s \<and> openrouter_key_id n1 = ok_id pk1 \<and>
        monthly_limit n1 = monthly_limit k1 \<and> current_usage n1 = 0 \<and>
        getUserApiKey s' (user_id k3) = Inr (Some n3) \<and> status n3 = active \<and>
        row_id n3 = Suc (next_id s) \<and> openrouter_key_id n3 = ok_id pk3 \<and>
        monthly_limit n3 = monthly_limit k3 \<and> current_usage n3 = 0 \<and>
        getUserApiKey s' (user_id k2) = Inr None \<and>
        k2\<lparr>status := inactive, updated_at := Suc (Suc (clock s))\<rparr> \<in> set (user_api_keys s'))"
proof -
  assume h: "getAllUsersWithKeys s = [k1, k2, k3]"
    "distinct [user_id k1, user_id k2, user_id k3]"
    "stored_limit (monthly_limit k1)" "stored_limit (monthly_limit k3)"
    "createUserKey e (user_id k1) (limit_of_column (monthly_limit k1)) = Inr pk1"
    "createUserKey e (user_id k2) (limit_of_column (monthly_limit k2)) = Inl err"
    "createUserKey e (user_id k3) (limit_of_column (monthly_limit k3)) = Inr pk3"
  note r = rotate_three [OF h, of today]
  have g1: "getUserApiKey (snd (rotateAllUserKeys e today s)) (user_id k1) =
      Inr (Some (hd (active_keys_of (snd (rotateAllUserKeys e today s)) (user_id k1))))"
    unfolding r(1) snd_conv r(2) by (simp add: getUserApiKey_def latest_active_key_single [OF r(2)])
  have g3: "getUserApiKey (snd (rotateAllUserKeys e today s)) (user_id k3) =
      Inr (Some (hd (active_keys_of (snd (rotateAllUserKeys e today s)) (user_id k3))))"
    unfolding r(1) snd_conv r(4) by (simp add: getUserApiKey_def latest_active_key_single [OF r(4)])
  have g2: "getUserApiKey (snd (rotateAllUserKeys e today s)) (user_id k2) = Inr None"
    unfolding r(1) snd_conv getUserApiKey_def using r(3) by (simp add: latest_active_key_None)
  have f1: "status n = active \<and> row_id n = next_id s \<and> openrouter_key_id n = ok_id pk1 \<and>
      monthly_limit n = monthly_limit k1 \<and> current_usage n = 0"
    if "n = hd (active_keys_of (snd (rotateAllUserKeys e today s)) (user_id k1))" for n
    unfolding that r(1) snd_conv r(2) list.sel using r(6)
    by (simp add: new_key_row_simps)
  have f3: "status n = active \<and> row_id n = Suc (next_id s) \<and> openrouter_key_id n = ok_id pk3 \<and>
      monthly_limit n = monthly_limit k3 \<and> current_usage n = 0"
    if "n = hd (active_keys_of (snd (rotateAllUserKeys e today s)) (user_id k3))" for n
    unfolding that r(1) snd_conv r(4) list.sel using r(7)
    by (simp add: new_key_row_simps)
  have m: "k2\<lparr>status := inactive, updated_at := Suc (Suc (clock s))\<rparr>
      \<in> set (user_api_keys (snd (rotateAllUserKeys e today s)))"
    unfolding r(1) snd_conv by (rule r(5))
  have res: "rotateAllUserKeys e today s =
          ([\<lparr>rr_userId = user_id k1, success = True, rr_error = None\<rparr>,
            \<lparr>rr_userId = user_id k2, success = False, rr_error = Some err\<rparr>,
            \<lparr>rr_userId = user_id k3, success = True, rr_error = None\<rparr>],
           snd (rotateAllUserKeys e today s))"
    unfolding r(1) snd_conv by (rule refl)
  from res g1 g2 g3 f1 [OF refl] f3 [OF refl] m show ?thesis
    by blast
qed

text \<open>
  C3, amended, on the store of carol, bob and alice with a provider that refuses bob's key:
  carol and alice have a new active record with usage 0, bob has none.
\<close>

theorem rotate_all_partial_failure_witness:
  "getAllUsersWithKeys three_db =
     [(sample_key carol None 7)\<lparr>row_id := 2, created_at := 2\<rparr>,
      (sample_key bob (Some 10) 3)\<lparr>row_id := 1, created_at := 1\<rparr>,
      (sample_key alice (Some 50) 12)\<lparr>row_id := 0, created_at := 0\<rparr>] \<and>
   fst (rotateAllUserKeys (provider_refusing bob) (2026, 11, 1) three_db) =
     [\<lparr>rr_userId = carol, success = True, rr_error = None\<rparr>,
      \<lparr>rr_userId = bob, success = False, rr_error = Some (HttpError ''HTTP 500'')\<rparr>,
      \<lparr>rr_userId = alice, success = True, rr_error = None\<rparr>] \<and>
   map_option (\<lambda>k. (row_id k, monthly_limit k, current_usage k))
     (latest_active_key (snd (rotateAllUserKeys (provider_refusing bob) (2026, 11, 1) three_db))
        carol) = Some (3, None, 0) \<and>
   map_option (\<lambda>k. (row_id k, monthly_limit k, current_usage k))
     (latest_active_key (snd (rotateAllUserKeys (provider_refusing bob) (2026, 11, 1) three_db))
        alice) = Some (4, Some 50, 0) \<and>
   latest_active_key (snd (rotateAllUserKeys (provider_refusing bob) (2026, 11, 1) three_db))
     bob = None"
proof -
  from rotate_all_partial_failure [OF three_db_listed three_db_users three_db_limits
      provider_refusing_bob, of "(2026, 11, 1)"]
  obtain n1 n3 s' where
    r: "rotateAllUserKeys (provider_refusing bob) (2026, 11, 1) three_db =
          ([\<lparr>rr_userId = carol, success = True, rr_error = None\<rparr>,
            \<lparr>rr_userId = bob, success = False, rr_error = Some (HttpError ''HTTP 500'')\<rparr>,
            \<lparr>rr_userId = alice, success = True, rr_error = None\<rparr>], s')"
    and c: "getUserApiKey s' carol = Inr (Some n1)" "row_id n1 = 3" "monthly_limit n1 = None"
      "current_usage n1 = 0"
    and a: "getUserApiKey s' alice = Inr (Some n3)" "row_id n3 = 4" "monthly_limit n3 = Some 50"
      "current_usage n3 = 0"
    and b: "getUserApiKey s' bob = Inr None"
    by (simp add: sample_key_def three_db_def) blast
  from r c a b three_db_listed show ?thesis
    by (simp add: getUserApiKey_def)
qed

end
